theory Spec2Isabelle
  imports Main
begin

section \<open>Python values, dictionaries and exceptions\<close>

text \<open>
  The companies API (\<^verbatim>\<open>backend/app/apis/companies_api/__init__.py\<close>) moves
  dictionaries between a PostgreSQL table and JSON bodies. A value is one of the Python
  objects the code distinguishes with \<^verbatim>\<open>is None\<close> and \<^verbatim>\<open>isinstance\<close>.
  A \<^verbatim>\<open>uuid.UUID\<close> is carried by its canonical text (what \<^verbatim>\<open>str\<close>
  returns), a \<^verbatim>\<open>datetime\<close> or \<^verbatim>\<open>date\<close> by its
  \<^verbatim>\<open>isoformat()\<close> text.
\<close>

datatype pyval =
    PNone
  | PBool bool
  | PInt int
  | PStr string
  | PUUID string
  | PDatetime string
  | PDate string

text \<open>
  A Python \<^verbatim>\<open>dict\<close> keeps insertion order, and the order decides the column
  order of the generated SQL: it is an association list. \<^verbatim>\<open>d[k] = v\<close>
  overwrites in place when the key is there and appends otherwise.
\<close>

type_synonym pydict = "(string \<times> pyval) list"

fun setitem :: "string \<Rightarrow> pyval \<Rightarrow> pydict \<Rightarrow> pydict" where
  "setitem k v [] = [(k, v)]"
| "setitem k v ((k', v') # d) =
     (if k' = k then (k', v) # d else (k', v') # setitem k v d)"

definition keys :: "pydict \<Rightarrow> string list" where
  "keys d = map fst d"

definition dict_values :: "pydict \<Rightarrow> pyval list" where
  "dict_values d = map snd d"

datatype exn =
    HTTPException nat string
  | RequestValidationError
  | ValidationError string
  | ValueError string
  | TypeError string
  | KeyError string
  | NameError string
  | Psycopg2Error string

type_synonym 'a result = "exn + 'a"

text \<open>The status the HTTP layer answers with when a handler raises.\<close>

fun status_of_exn :: "exn \<Rightarrow> nat" where
  "status_of_exn (HTTPException s d) = s"
| "status_of_exn RequestValidationError = 422"
| "status_of_exn e = 500"

text \<open>
  \<open>http_status ok r\<close>: the response status of a route whose decorator declares the
  success status \<open>ok\<close> (200 by default, 201 for POST, 204 for DELETE).
\<close>

fun http_status :: "nat \<Rightarrow> 'a result \<Rightarrow> nat" where
  "http_status ok (Inr r) = ok"
| "http_status ok (Inl e) = status_of_exn e"

section \<open>Casing converter\<close>

definition ascii_lowercase :: string where
  "ascii_lowercase = ''abcdefghijklmnopqrstuvwxyz''"

definition ascii_uppercase :: string where
  "ascii_uppercase = ''ABCDEFGHIJKLMNOPQRSTUVWXYZ''"

definition digits :: string where
  "digits = ''0123456789''"

text \<open>
  \<^verbatim>\<open>str.upper\<close> and \<^verbatim>\<open>str.lower\<close> on one character. Keys are
  modelled as ASCII text; a character outside the two alphabets is left as it is.
\<close>

definition upper :: "char \<Rightarrow> char" where
  "upper c = (case map_of (zip ascii_lowercase ascii_uppercase) c of
                Some u \<Rightarrow> u | None \<Rightarrow> c)"

definition lower :: "char \<Rightarrow> char" where
  "lower c = (case map_of (zip ascii_uppercase ascii_lowercase) c of
                Some l \<Rightarrow> l | None \<Rightarrow> c)"

text \<open>
  \<^verbatim>\<open>re.sub(r'_([a-z0-9])', lambda match: match.group(1).upper(), snake_str)\<close>:
  the matches are found left to right and do not overlap.
\<close>

fun snake_to_camel :: "string \<Rightarrow> string" where
  "snake_to_camel (c # d # cs) =
     (if c = CHR ''_'' \<and> d \<in> set (ascii_lowercase @ digits)
      then upper d # snake_to_camel cs
      else c # snake_to_camel (d # cs))"
| "snake_to_camel cs = cs"

text \<open>
  The value conversion of \<^verbatim>\<open>row_to_camel_dict\<close>: a UUID becomes
  \<^verbatim>\<open>str(v)\<close>, a datetime or date \<^verbatim>\<open>v.isoformat()\<close>, anything else
  passes through.
\<close>

fun externalize_value :: "pyval \<Rightarrow> pyval" where
  "externalize_value (PUUID u) = PStr u"
| "externalize_value (PDatetime t) = PStr t"
| "externalize_value (PDate t) = PStr t"
| "externalize_value v = v"

definition row_to_camel_dict :: "pydict option \<Rightarrow> pydict option" where
  "row_to_camel_dict row =
     (case row of
        None \<Rightarrow> None
      | Some r \<Rightarrow>
          Some (fold (\<lambda>(k, v) camel_dict.
                        setitem (snake_to_camel k) (externalize_value v) camel_dict) r []))"

text \<open>
  \<^verbatim>\<open>re.sub(r'(?<!^)(?=[A-Z])', '_', k)\<close> puts an underscore before every
  upper-case letter that is not the first character of the key.
\<close>

fun underscore_capitals :: "string \<Rightarrow> string" where
  "underscore_capitals [] = []"
| "underscore_capitals (c # cs) =
     (if c \<in> set ascii_uppercase then CHR ''_'' # c # underscore_capitals cs
      else c # underscore_capitals cs)"

definition re_sub_capitals :: "string \<Rightarrow> string" where
  "re_sub_capitals k = (case k of [] \<Rightarrow> [] | c # cs \<Rightarrow> c # underscore_capitals cs)"

definition snake_key :: "string \<Rightarrow> string" where
  "snake_key k =
     (if k = ''location'' then ''address''
      else if k = ''employees'' then ''employee_estimate''
      else map lower (re_sub_capitals k))"

definition camel_to_snake_dict :: "pydict option \<Rightarrow> pydict option" where
  "camel_to_snake_dict camel_dict =
     (case camel_dict of
        None \<Rightarrow> None
      | Some d \<Rightarrow>
          Some (fold (\<lambda>(k, v) snake_dict. setitem (snake_key k) v snake_dict) d []))"

section \<open>Request and response models\<close>

text \<open>
  A Pydantic model is its list of fields: name, alias, type, and whether the field is
  \<^verbatim>\<open>Optional[...] = None\<close>. Validation reads each field by its alias, then
  (with \<^verbatim>\<open>populate_by_name\<close>) by its name; a field that is not optional must be
  there and must not be null. The validated object is represented by the fields that
  were set, in field order, which is what
  \<^verbatim>\<open>model_dump(exclude_unset=True)\<close> returns; a field left unset reads as
  \<^verbatim>\<open>None\<close>. Keys the model does not declare are ignored.
\<close>

datatype ftype = TStr | TInt | TUUID | TDatetime

type_synonym fieldspec = "string \<times> string \<times> ftype \<times> bool"

fun coerce :: "ftype \<Rightarrow> pyval \<Rightarrow> pyval option" where
  "coerce TStr (PStr s) = Some (PStr s)"
| "coerce TInt (PInt i) = Some (PInt i)"
| "coerce TUUID (PUUID u) = Some (PUUID u)"
| "coerce TUUID (PStr s) = Some (PUUID s)"
| "coerce TDatetime (PDatetime t) = Some (PDatetime t)"
| "coerce TDatetime (PStr s) = Some (PDatetime s)"
| "coerce t v = None"

fun validate_field :: "fieldspec \<Rightarrow> pydict \<Rightarrow> (pydict) result" where
  "validate_field (n, a, t, optional) d =
     (case (case map_of d a of Some v \<Rightarrow> Some v | None \<Rightarrow> map_of d n) of
        None \<Rightarrow> if optional then Inr [] else Inl (ValidationError n)
      | Some PNone \<Rightarrow> if optional then Inr [(n, PNone)] else Inl (ValidationError n)
      | Some v \<Rightarrow>
          (case coerce t v of
             None \<Rightarrow> Inl (ValidationError n)
           | Some v' \<Rightarrow> Inr [(n, v')]))"

fun validate_fields :: "fieldspec list \<Rightarrow> pydict \<Rightarrow> pydict result" where
  "validate_fields [] d = Inr []"
| "validate_fields (f # fs) d =
     (case validate_field f d of
        Inl e \<Rightarrow> Inl e
      | Inr x \<Rightarrow>
          (case validate_fields fs d of
             Inl e \<Rightarrow> Inl e
           | Inr xs \<Rightarrow> Inr (x @ xs)))"

definition model_validate :: "fieldspec list \<Rightarrow> pydict option \<Rightarrow> pydict result" where
  "model_validate model obj =
     (case obj of
        None \<Rightarrow> Inl (ValidationError ''model_type'')
      | Some d \<Rightarrow> validate_fields model d)"

definition Company :: "fieldspec list" where
  "Company =
     [(''id'', ''id'', TUUID, False),
      (''name'', ''name'', TStr, False),
      (''industry'', ''industry'', TStr, True),
      (''location'', ''address'', TStr, True),
      (''logoUrl'', ''logoUrl'', TStr, True),
      (''revenue'', ''revenue'', TInt, True),
      (''employees'', ''employeeEstimate'', TInt, True),
      (''createdAt'', ''createdAt'', TDatetime, False),
      (''updatedAt'', ''updatedAt'', TDatetime, False)]"

definition CreateCompanyRequest :: "fieldspec list" where
  "CreateCompanyRequest =
     [(''name'', ''name'', TStr, False),
      (''industry'', ''industry'', TStr, False),
      (''location'', ''location'', TStr, False),
      (''logoUrl'', ''logoUrl'', TStr, True),
      (''revenue'', ''revenue'', TInt, True),
      (''employees'', ''employees'', TInt, True)]"

definition UpdateCompanyRequest :: "fieldspec list" where
  "UpdateCompanyRequest =
     [(''name'', ''name'', TStr, True),
      (''industry'', ''industry'', TStr, True),
      (''location'', ''location'', TStr, True),
      (''logoUrl'', ''logoUrl'', TStr, True),
      (''revenue'', ''revenue'', TInt, True),
      (''employees'', ''employees'', TInt, True)]"

text \<open>Reading a field of a validated object: an unset field is \<^verbatim>\<open>None\<close>.\<close>

definition field :: "pydict \<Rightarrow> string \<Rightarrow> pyval" where
  "field obj n = (case map_of obj n of None \<Rightarrow> PNone | Some v \<Rightarrow> v)"

section \<open>The store and the cursor context manager\<close>

text \<open>
  The world a handler runs in: the secret holding the connection string, whether
  \<^verbatim>\<open>psycopg2.connect\<close> succeeds, the committed rows of the table
  \<^verbatim>\<open>companies\<close> (a row is a dictionary from column to value; a column a
  row does not hold is NULL), and the statements executed so far with their parameters.

  Every \<^verbatim>\<open>get_db_connection()\<close> opens a connection of its own. psycopg2 opens
  a transaction at the first statement and the code commits explicitly, so a connection
  works on its own copy of the committed rows; \<^verbatim>\<open>conn.commit()\<close> publishes
  the copy and closing without commit discards it. PostgreSQL shows no other connection
  a row that is not committed.
\<close>

record world =
  POSTGRES_URL :: "string option"
  connect_ok :: bool
  companies :: "pydict list"
  executed :: "(string \<times> pyval list) list"

definition get_db_connection :: "world \<Rightarrow> (pydict list) result" where
  "get_db_connection w =
     (case POSTGRES_URL w of
        None \<Rightarrow> Inl (ValueError ''Database connection URL not configured.'')
      | Some db_url \<Rightarrow>
          if db_url = [] then Inl (ValueError ''Database connection URL not configured.'')
          else if connect_ok w then Inr (companies w)
          else Inl (Psycopg2Error ''connection failed''))"

text \<open>
  \<^verbatim>\<open>get_db_cursor(commit)\<close> around a \<^verbatim>\<open>with\<close> body. The body
  gets the rows its connection sees and the world. An exception of the body is thrown
  into the generator at \<^verbatim>\<open>yield cursor\<close>, so the commit is skipped;
  \<^verbatim>\<open>except Exception as e\<close> then captures it, whatever it is, and the
  generator raises \<^verbatim>\<open>HTTPException(500, "Database operation failed.")\<close>
  in its place. The same happens when the connection cannot be opened.
\<close>

definition get_db_cursor ::
  "bool \<Rightarrow> (pydict list \<Rightarrow> world \<Rightarrow> 'a result \<times> pydict list \<times> world) \<Rightarrow> world
     \<Rightarrow> 'a result \<times> world" where
  "get_db_cursor commit body w =
     (case get_db_connection w of
        Inl conn_exception \<Rightarrow> (Inl (HTTPException 500 ''Database operation failed.''), w)
      | Inr rows \<Rightarrow>
          (case body rows w of
             (Inl conn_exception, rows', w') \<Rightarrow>
               (Inl (HTTPException 500 ''Database operation failed.''), w')
           | (Inr r, rows', w') \<Rightarrow>
               (Inr r, if commit then w'\<lparr>companies := rows'\<rparr> else w')))"

text \<open>\<^verbatim>\<open>cursor.execute(query, values)\<close> is recorded in the world.\<close>

definition cursor_execute :: "string \<Rightarrow> pyval list \<Rightarrow> world \<Rightarrow> world" where
  "cursor_execute query vals w = w\<lparr>executed := executed w @ [(query, vals)]\<rparr>"

definition column :: "pydict \<Rightarrow> string \<Rightarrow> pyval" where
  "column r c = (case map_of r c of None \<Rightarrow> PNone | Some v \<Rightarrow> v)"

definition has_id :: "string \<Rightarrow> pydict \<Rightarrow> bool" where
  "has_id company_id r = (column r ''id'' = PUUID company_id)"

text \<open>What the statements of the handlers do to the rows of a connection.\<close>

definition select_columns :: "string list" where
  "select_columns =
     [''id'', ''name'', ''industry'', ''address'', ''logo_url'', ''revenue'',
      ''employee_estimate'', ''created_at'', ''updated_at'']"

definition select_company :: "string \<Rightarrow> pydict list \<Rightarrow> pydict option" where
  "select_company company_id rows =
     (case filter (has_id company_id) rows of
        [] \<Rightarrow> None
      | r # rs \<Rightarrow> Some (map (\<lambda>c. (c, column r c)) select_columns))"

definition insert_returning_id ::
  "pydict \<Rightarrow> pydict list \<Rightarrow> (pydict option \<times> pydict list) result" where
  "insert_returning_id insert_data rows =
     (case map_of insert_data ''id'' of
        None \<Rightarrow> Inl (Psycopg2Error ''null value in column id'')
      | Some i \<Rightarrow>
          if list_ex (\<lambda>r. column r ''id'' = i) rows
          then Inl (Psycopg2Error ''duplicate key value'')
          else Inr (Some [(''id'', i)], rows @ [insert_data]))"

definition update_returning_id ::
  "pydict \<Rightarrow> string \<Rightarrow> pydict list \<Rightarrow> pydict option \<times> pydict list" where
  "update_returning_id update_fields company_id rows =
     (if list_ex (has_id company_id) rows then Some [(''id'', PUUID company_id)] else None,
      map (\<lambda>r. if has_id company_id r then fold (\<lambda>(k, v). setitem k v) update_fields r else r)
        rows)"

definition delete_returning_id ::
  "string \<Rightarrow> pydict list \<Rightarrow> pydict option \<times> pydict list" where
  "delete_returning_id company_id rows =
     (if list_ex (has_id company_id) rows then Some [(''id'', PUUID company_id)] else None,
      filter (\<lambda>r. \<not> has_id company_id r) rows)"

text \<open>
  The names bound in the module when a handler runs: the imports, the functions and the
  classes. A name that is neither here nor a builtin raises \<^verbatim>\<open>NameError\<close>.
\<close>

definition module_globals :: "string list" where
  "module_globals =
     [''psycopg2'', ''db'', ''contextmanager'', ''uuid'', ''re'', ''date'', ''datetime'',
      ''APIRouter'', ''HTTPException'', ''BaseModel'', ''Field'', ''List'', ''Optional'',
      ''get_db_connection'', ''get_db_cursor'', ''snake_to_camel'', ''row_to_camel_dict'',
      ''camel_to_snake_dict'', ''Company'', ''CompanyListItem'', ''CreateCompanyRequest'',
      ''UpdateCompanyRequest'', ''ListCompaniesResponse'', ''GetCompanyResponse'',
      ''UpsertCompanyResponse'', ''router'', ''list_companies'', ''get_company'',
      ''create_company'', ''update_company'', ''delete_company'']"

definition load_global :: "string \<Rightarrow> unit result" where
  "load_global n = (if n \<in> set module_globals then Inr () else Inl (NameError n))"

text \<open>
  The \<^verbatim>\<open>except\<close> clauses that close every handler: an
  \<^verbatim>\<open>HTTPException\<close> is raised again, a \<^verbatim>\<open>psycopg2.Error\<close>
  (where the handler has that clause) and any other exception become a 500.
\<close>

fun handler_except :: "string option \<Rightarrow> string \<Rightarrow> exn \<Rightarrow> exn" where
  "handler_except db_detail detail (HTTPException s d) = HTTPException s d"
| "handler_except (Some db_detail) detail (Psycopg2Error m) =
     HTTPException 500 (db_detail @ m)"
| "handler_except db_detail detail e = HTTPException 500 detail"

section \<open>Query builder\<close>

fun join :: "string \<Rightarrow> string list \<Rightarrow> string" where
  "join sep [] = []"
| "join sep [x] = x"
| "join sep (x # y # xs) = x @ sep @ join sep (y # xs)"

definition get_company_query :: string where
  "get_company_query =
     ''SELECT id, name, industry, address, logo_url, revenue, employee_estimate, created_at, updated_at FROM companies WHERE id = %s;''"

definition insert_query :: "string list \<Rightarrow> string" where
  "insert_query columns =
     ''INSERT INTO companies ('' @ join '', '' columns @ '') VALUES (''
       @ join '', '' (replicate (length columns) ''%s'') @ '') RETURNING id;''"

definition update_query :: "string list \<Rightarrow> string" where
  "update_query columns =
     ''UPDATE companies SET '' @ join '', '' (map (\<lambda>col. col @ '' = %s'') columns)
       @ '' WHERE id = %s RETURNING id;''"

definition delete_query :: string where
  "delete_query = ''DELETE FROM companies WHERE id = %s RETURNING id;''"

section \<open>Allow-list filter\<close>

definition allowed_columns :: "string list" where
  "allowed_columns =
     [''id'', ''name'', ''logo_url'', ''city'', ''foundation_date'', ''domain'',
      ''employee_range'', ''categories'', ''industry'', ''address'', ''contact_email'',
      ''revenue'', ''active'', ''catchall_email_domain'', ''cleaned_phone_number'',
      ''additional_industries'', ''alexa_rank'', ''angel_list_profile_url'', ''blog_url'',
      ''business_industries'', ''country_name'', ''crunchbase_url'', ''employee_estimate'',
      ''facebook_profile_url'', ''full_address'', ''linkedin_id'', ''linkedin_profile_url'',
      ''main_domain'', ''main_phone_cleaned_number'', ''main_phone_number'',
      ''main_phone_source'', ''search_keywords'', ''spoken_languages'', ''state_name'',
      ''stock_exchange'', ''stock_symbol'', ''store_count'', ''twitter_profile_url'',
      ''website_url'', ''year_founded'', ''zip_code'', ''created_at'', ''updated_at'']"

definition allowed_update_columns :: "string list" where
  "allowed_update_columns =
     [''name'', ''logo_url'', ''city'', ''foundation_date'', ''domain'',
      ''employee_range'', ''categories'', ''industry'', ''address'', ''contact_email'',
      ''revenue'', ''active'', ''catchall_email_domain'', ''cleaned_phone_number'',
      ''additional_industries'', ''alexa_rank'', ''angel_list_profile_url'', ''blog_url'',
      ''business_industries'', ''country_name'', ''crunchbase_url'', ''employee_estimate'',
      ''facebook_profile_url'', ''full_address'', ''linkedin_id'', ''linkedin_profile_url'',
      ''main_domain'', ''main_phone_cleaned_number'', ''main_phone_number'',
      ''main_phone_source'', ''search_keywords'', ''spoken_languages'', ''state_name'',
      ''stock_exchange'', ''stock_symbol'', ''store_count'', ''twitter_profile_url'',
      ''website_url'', ''year_founded'', ''zip_code'', ''updated_at'']"

text \<open>
  \<^verbatim>\<open>{k: v for k, v in d.items() if k in allowed and v is not None}\<close>. The keys
  of a dictionary are distinct, so the comprehension keeps the selected items in order.
\<close>

definition allow_list_filter :: "string list \<Rightarrow> pydict \<Rightarrow> pydict" where
  "allow_list_filter allowed d = filter (\<lambda>(k, v). k \<in> set allowed \<and> v \<noteq> PNone) d"

section \<open>Resource handlers\<close>

text \<open>
  The identifier a \<^verbatim>\<open>RETURNING id\<close> row holds, as the text the next query
  is given (\<^verbatim>\<open>str(company_id)\<close>). The column has type uuid.
\<close>

fun uuid_str :: "pyval \<Rightarrow> string" where
  "uuid_str (PUUID u) = u"
| "uuid_str (PStr s) = s"
| "uuid_str v = []"

subsection \<open>Get\<close>

definition get_company_body ::
  "string \<Rightarrow> pydict list \<Rightarrow> world \<Rightarrow> pydict result \<times> pydict list \<times> world" where
  "get_company_body company_id rows w =
     (let w1 = cursor_execute get_company_query [PStr company_id] w in
      case select_company company_id rows of
        None \<Rightarrow> (Inl (HTTPException 404 ''Company not found''), rows, w1)
      | Some result \<Rightarrow>
          (case model_validate Company (row_to_camel_dict (Some result)) of
             Inl e \<Rightarrow> (Inl e, rows, w1)
           | Inr validated_company \<Rightarrow> (Inr validated_company, rows, w1)))"

definition get_company :: "string \<Rightarrow> world \<Rightarrow> pydict result \<times> world" where
  "get_company company_id w =
     (case get_db_cursor False (get_company_body company_id) w of
        (Inl e, w') \<Rightarrow>
          (Inl (handler_except None
                  ''Failed to retrieve company details from database.'' e), w')
      | (Inr r, w') \<Rightarrow> (Inr r, w'))"

subsection \<open>Create\<close>

text \<open>
  \<open>request\<close> is \<^verbatim>\<open>request.model_dump(exclude_unset=True)\<close>, \<open>new_id\<close> the
  result of \<^verbatim>\<open>uuid.uuid4()\<close> and \<open>now\<close> of \<^verbatim>\<open>datetime.now()\<close>.
\<close>

definition insert_data_of :: "pydict \<Rightarrow> string \<Rightarrow> string \<Rightarrow> pydict" where
  "insert_data_of company_data_snake new_id now =
     allow_list_filter allowed_columns
       (setitem ''updated_at'' (PDatetime now)
         (setitem ''created_at'' (PDatetime now)
           (setitem ''id'' (PUUID new_id) company_data_snake)))"

text \<open>\<^verbatim>\<open>if k not in insert_data: insert_data[k] = v\<close>\<close>

definition set_if_missing :: "string \<Rightarrow> pyval \<Rightarrow> pydict \<Rightarrow> pydict" where
  "set_if_missing k v d = (if k \<in> set (keys d) then d else setitem k v d)"

definition create_company_body ::
  "pydict \<Rightarrow> pydict list \<Rightarrow> world \<Rightarrow> pydict result \<times> pydict list \<times> world" where
  "create_company_body insert_data rows w =
     (let columns = keys insert_data;
          query = insert_query columns;
          vals = dict_values insert_data;
          w1 = cursor_execute query vals w
      in case insert_returning_id insert_data rows of
           Inl e \<Rightarrow> (Inl e, rows, w1)
         | Inr (inserted_row, rows') \<Rightarrow>
             (case inserted_row of
                None \<Rightarrow>
                  (Inl (HTTPException 500 ''Failed to retrieve created company ID.''),
                   rows', w1)
              | Some r \<Rightarrow>
                  if r = [] then
                    (Inl (HTTPException 500 ''Failed to retrieve created company ID.''),
                     rows', w1)
                  else
                    (case map_of r ''id'' of
                       None \<Rightarrow> (Inl (KeyError ''id''), rows', w1)
                     | Some inserted_id \<Rightarrow>
                         (case get_company (uuid_str inserted_id) w1 of
                            (res, w2) \<Rightarrow> (res, rows', w2)))))"

definition create_company ::
  "pydict \<Rightarrow> string \<Rightarrow> string \<Rightarrow> world \<Rightarrow> pydict result \<times> world" where
  "create_company request new_id now w =
     (case camel_to_snake_dict (Some request) of
        None \<Rightarrow> (Inl (TypeError ''NoneType''), w)
      | Some company_data_snake \<Rightarrow>
          (let insert_data = insert_data_of company_data_snake new_id now in
           if ''name'' \<notin> set (keys insert_data)
           then (Inl (HTTPException 400 ''Company name is required.''), w)
           else
             (let insert_data =
                    set_if_missing ''updated_at'' (PDatetime now)
                      (set_if_missing ''created_at'' (PDatetime now)
                        (set_if_missing ''id'' (PUUID new_id) insert_data))
              in case get_db_cursor True (create_company_body insert_data) w of
                   (Inl e, w') \<Rightarrow>
                     (Inl (handler_except (Some ''Database error during company creation: '')
                             ''Failed to create company in database.'' e), w')
                 | (Inr r, w') \<Rightarrow> (Inr r, w'))))"

subsection \<open>Update\<close>

definition update_fields_of :: "pydict \<Rightarrow> string \<Rightarrow> pydict" where
  "update_fields_of update_data_snake now =
     allow_list_filter allowed_update_columns
       (setitem ''updated_at'' (PDatetime now) update_data_snake)"

definition update_company_body ::
  "string \<Rightarrow> pydict \<Rightarrow> pydict list \<Rightarrow> world \<Rightarrow> pydict result \<times> pydict list \<times> world" where
  "update_company_body company_id update_fields rows w =
     (let query = update_query (keys update_fields);
          vals = dict_values update_fields @ [PStr company_id];
          w1 = cursor_execute query vals w
      in case update_returning_id update_fields company_id rows of
           (None, rows') \<Rightarrow> (Inl (HTTPException 404 ''Company not found''), rows', w1)
         | (Some r, rows') \<Rightarrow>
             (case map_of r ''id'' of
                None \<Rightarrow> (Inl (KeyError ''id''), rows', w1)
              | Some updated_id \<Rightarrow>
                  (case get_company (uuid_str updated_id) w1 of
                     (res, w2) \<Rightarrow> (res, rows', w2))))"

definition update_company ::
  "string \<Rightarrow> pydict \<Rightarrow> string \<Rightarrow> world \<Rightarrow> pydict result \<times> world" where
  "update_company company_id request now w =
     (case camel_to_snake_dict (Some request) of
        None \<Rightarrow> (Inl (HTTPException 400 ''No update data provided.''), w)
      | Some update_data_snake \<Rightarrow>
          if update_data_snake = []
          then (Inl (HTTPException 400 ''No update data provided.''), w)
          else
            (let update_fields = update_fields_of update_data_snake now in
             if update_fields = [] \<or> list_all (\<lambda>k. k = ''updated_at'') (keys update_fields)
             then (Inl (HTTPException 400 ''No valid fields provided for update.''), w)
             else
               (case get_db_cursor True (update_company_body company_id update_fields) w of
                  (Inl e, w') \<Rightarrow>
                    (Inl (handler_except (Some ''Database error during company update: '')
                            ''Failed to update company in database.'' e), w')
                | (Inr r, w') \<Rightarrow> (Inr r, w'))))"

subsection \<open>Delete\<close>

text \<open>
  On success the handler evaluates \<^verbatim>\<open>Response(status_code=204)\<close>; the name
  \<^verbatim>\<open>Response\<close> is looked up in the module.
\<close>

definition delete_company_body ::
  "string \<Rightarrow> pydict list \<Rightarrow> world \<Rightarrow> unit result \<times> pydict list \<times> world" where
  "delete_company_body company_id rows w =
     (let w1 = cursor_execute delete_query [PStr company_id] w in
      case delete_returning_id company_id rows of
        (None, rows') \<Rightarrow> (Inl (HTTPException 404 ''Company not found''), rows', w1)
      | (Some r, rows') \<Rightarrow>
          (case map_of r ''id'' of
             None \<Rightarrow> (Inl (KeyError ''id''), rows', w1)
           | Some deleted_id \<Rightarrow>
               (case load_global ''Response'' of
                  Inl e \<Rightarrow> (Inl e, rows', w1)
                | Inr u \<Rightarrow> (Inr (), rows', w1))))"

definition delete_company :: "string \<Rightarrow> world \<Rightarrow> unit result \<times> world" where
  "delete_company company_id w =
     (case get_db_cursor True (delete_company_body company_id) w of
        (Inl e, w') \<Rightarrow>
          (Inl (handler_except (Some ''Database error during company deletion: '')
                  ''Failed to delete company from database.'' e), w')
      | (Inr r, w') \<Rightarrow> (Inr r, w'))"

subsection \<open>Routes\<close>

text \<open>
  The HTTP layer validates the JSON body against the request model before it calls the
  handler, and answers 422 when the body does not fit.
\<close>

definition post_companies ::
  "pydict \<Rightarrow> string \<Rightarrow> string \<Rightarrow> world \<Rightarrow> pydict result \<times> world" where
  "post_companies body new_id now w =
     (case model_validate CreateCompanyRequest (Some body) of
        Inl e \<Rightarrow> (Inl RequestValidationError, w)
      | Inr request \<Rightarrow> create_company request new_id now w)"

definition put_company ::
  "string \<Rightarrow> pydict \<Rightarrow> string \<Rightarrow> world \<Rightarrow> pydict result \<times> world" where
  "put_company company_id body now w =
     (case model_validate UpdateCompanyRequest (Some body) of
        Inl e \<Rightarrow> (Inl RequestValidationError, w)
      | Inr request \<Rightarrow> update_company company_id request now w)"

section \<open>Example states\<close>

definition id_acme :: string where
  "id_acme = ''3f2b8c1e-5d4a-4e6f-9a7b-0c1d2e3f4a5b''"

definition id_other :: string where
  "id_other = ''9e8d7c6b-5a49-4382-b716-05f4e3d2c1b0''"

definition t0 :: string where
  "t0 = ''2024-05-01T09:30:00''"

definition t1 :: string where
  "t1 = ''2024-06-15T14:00:00''"

definition acme_row :: pydict where
  "acme_row =
     [(''id'', PUUID id_acme), (''name'', PStr ''Acme''), (''industry'', PStr ''Tools''),
      (''address'', PStr ''1 Main St''), (''created_at'', PDatetime t0),
      (''updated_at'', PDatetime t0)]"

definition acme_store :: world where
  "acme_store =
     \<lparr>POSTGRES_URL = Some ''postgresql://db/companies'', connect_ok = True,
      companies = [acme_row], executed = []\<rparr>"

definition plain_row :: pydict where
  "plain_row =
     [(''name'', PStr ''Acme''), (''address'', PStr ''1 Main St''), (''logo_url'', PNone),
      (''employee_estimate'', PInt 40), (''revenue'', PInt 1200000)]"

definition bolt_body :: pydict where
  "bolt_body =
     [(''name'', PStr ''Bolt''), (''industry'', PStr ''Energy''),
      (''location'', PStr ''2 Side St'')]"

section \<open>Facts about dictionaries and the cursor\<close>

lemma map_of_setitem: "map_of (setitem k v d) = (map_of d)(k \<mapsto> v)"
  by (induction d) (auto simp: fun_eq_iff)

lemma keys_setitem: "set (keys (setitem k v d)) = insert k (set (keys d))"
proof -
  have "set (keys (setitem k v d)) = dom (map_of (setitem k v d))"
    by (simp add: keys_def dom_map_of_conv_image_fst)
  also have "\<dots> = insert k (dom (map_of d))"
    by (simp add: map_of_setitem)
  also have "\<dots> = insert k (set (keys d))"
    by (simp add: keys_def dom_map_of_conv_image_fst)
  finally show ?thesis .
qed

lemma distinct_setitem: "distinct (keys d) \<Longrightarrow> distinct (keys (setitem k v d))"
proof (induction d)
  case Nil
  then show ?case by (simp add: keys_def)
next
  case (Cons p d)
  obtain k' v' where p: "p = (k', v')" by (cases p)
  from Cons have d: "distinct (keys d)" and nin: "k' \<notin> set (keys d)"
    by (auto simp: keys_def p)
  show ?case
  proof (cases "k' = k")
    case True
    with Cons.prems show ?thesis by (simp add: keys_def p)
  next
    case False
    have "set (keys (setitem k v d)) = insert k (set (keys d))" by (rule keys_setitem)
    with False nin have "k' \<notin> set (keys (setitem k v d))" by auto
    with Cons.IH [OF d] False show ?thesis by (simp add: keys_def p)
  qed
qed

text \<open>Whatever the body raises, the cursor manager raises its own 500.\<close>

lemma get_db_cursor_raises:
  "fst (get_db_cursor commit body w) = Inl e
     \<Longrightarrow> e = HTTPException 500 ''Database operation failed.''"
  by (auto simp: get_db_cursor_def split: sum.splits prod.splits)

text \<open>A body that raises on every connection: nothing is committed.\<close>

lemma get_db_cursor_body_raises:
  assumes "\<And>rows. get_db_connection w = Inr rows
             \<Longrightarrow> \<exists>e rows' w'. body rows w = (Inl e, rows', w') \<and> companies w' = companies w"
  shows "fst (get_db_cursor commit body w) = Inl (HTTPException 500 ''Database operation failed.'')
     \<and> companies (snd (get_db_cursor commit body w)) = companies w"
proof (cases "get_db_connection w")
  case (Inl e)
  then show ?thesis by (simp add: get_db_cursor_def)
next
  case (Inr rows)
  from assms [OF Inr] obtain e rows' w'
    where "body rows w = (Inl e, rows', w')" "companies w' = companies w"
    by blast
  with Inr show ?thesis by (simp add: get_db_cursor_def)
qed

lemma select_company_absent:
  "\<not> list_ex (has_id company_id) rows \<Longrightarrow> select_company company_id rows = None"
  by (auto simp: select_company_def list_ex_iff filter_empty_conv split: list.splits)

lemma get_db_connection_rows: "get_db_connection w = Inr rows \<Longrightarrow> rows = companies w"
  by (auto simp: get_db_connection_def split: option.splits if_splits)

lemma get_db_connection_cursor_execute [simp]:
  "get_db_connection (cursor_execute q vs w) = get_db_connection w"
  by (simp add: get_db_connection_def cursor_execute_def split: option.splits)

lemma companies_cursor_execute [simp]: "companies (cursor_execute q vs w) = companies w"
  by (simp add: cursor_execute_def)

text \<open>
  Get on an identifier the table does not hold: the 404 of the body does not leave the
  cursor manager.
\<close>

lemma get_company_absent:
  assumes "\<not> list_ex (has_id company_id) (companies w)"
  shows "fst (get_company company_id w) = Inl (HTTPException 500 ''Database operation failed.'')"
proof -
  have "fst (get_db_cursor False (get_company_body company_id) w)
          = Inl (HTTPException 500 ''Database operation failed.'')"
  proof (cases "get_db_connection w")
    case (Inl e)
    then show ?thesis by (simp add: get_db_cursor_def)
  next
    case (Inr rows)
    then have "rows = companies w" by (rule get_db_connection_rows)
    with assms have "select_company company_id rows = None"
      by (simp add: select_company_absent)
    with Inr show ?thesis
      by (simp add: get_db_cursor_def get_company_body_def Let_def)
  qed
  then show ?thesis
    by (cases "get_db_cursor False (get_company_body company_id) w")
       (simp add: get_company_def)
qed

lemma companies_get_company [simp]: "companies (snd (get_company company_id w)) = companies w"
  by (auto simp: get_company_def get_db_cursor_def get_company_body_def Let_def
      split: prod.splits sum.splits option.splits)

lemma delete_company_body_raises:
  "\<exists>e rows' w'. delete_company_body company_id rows w = (Inl e, rows', w')
     \<and> companies w' = companies w"
  by (auto simp: delete_company_body_def delete_returning_id_def Let_def load_global_def
      module_globals_def)

text \<open>Delete raises on every path, so it never reaches the commit.\<close>

lemma delete_company_always_500:
  "fst (delete_company company_id w) = Inl (HTTPException 500 ''Database operation failed.'')
   \<and> companies (snd (delete_company company_id w)) = companies w"
proof -
  have "fst (get_db_cursor True (delete_company_body company_id) w)
          = Inl (HTTPException 500 ''Database operation failed.'')
     \<and> companies (snd (get_db_cursor True (delete_company_body company_id) w)) = companies w"
    by (rule get_db_cursor_body_raises) (rule delete_company_body_raises)
  then show ?thesis
    by (auto simp: delete_company_def split: prod.splits sum.splits)
qed

lemma map_of_filter_first:
  "map_of d k = Some v \<Longrightarrow> P (k, v) \<Longrightarrow> map_of (filter P d) k = Some v"
  by (induction d) (auto split: if_splits)

lemma map_of_set_if_missing:
  "map_of d k = Some v \<Longrightarrow> map_of (set_if_missing k' v' d) k = Some v"
proof (cases "k' \<in> set (keys d)")
  case True
  assume "map_of d k = Some v"
  with True show ?thesis by (simp add: set_if_missing_def)
next
  case False
  assume m: "map_of d k = Some v"
  then have "k \<in> set (keys d)"
    by (auto simp: keys_def dest: map_of_SomeD intro: rev_image_eqI)
  with False have "k' \<noteq> k" by auto
  with m False show ?thesis by (simp add: set_if_missing_def map_of_setitem)
qed

lemma insert_data_of_id:
  "map_of (insert_data_of d new_id now) ''id'' = Some (PUUID new_id)"
  unfolding insert_data_of_def allow_list_filter_def
  by (rule map_of_filter_first) (simp_all add: map_of_setitem allowed_columns_def)

lemma update_company_body_absent:
  assumes "\<not> list_ex (has_id company_id) rows"
  shows "\<exists>e rows' w'. update_company_body company_id update_fields rows w = (Inl e, rows', w')
     \<and> companies w' = companies w"
  using assms by (simp add: update_company_body_def update_returning_id_def Let_def)

lemma update_company_absent:
  assumes "\<not> list_ex (has_id company_id) (companies w)"
  shows "fst (update_company company_id request now w)
     \<in> {Inl (HTTPException 400 ''No update data provided.''),
         Inl (HTTPException 400 ''No valid fields provided for update.''),
         Inl (HTTPException 500 ''Database operation failed.'')}"
proof -
  have cur: "fst (get_db_cursor True (update_company_body company_id uf) w)
          = Inl (HTTPException 500 ''Database operation failed.'')" for uf
  proof -
    have "\<exists>e rows' w'. update_company_body company_id uf rows w = (Inl e, rows', w')
            \<and> companies w' = companies w" if "get_db_connection w = Inr rows" for rows
      using that assms get_db_connection_rows [OF that]
      by (simp add: update_company_body_absent)
    then show ?thesis
      using get_db_cursor_body_raises [of w "update_company_body company_id uf" True]
      by blast
  qed
  show ?thesis
  proof (cases "camel_to_snake_dict (Some request)")
    case None
    then show ?thesis by (simp add: update_company_def)
  next
    case (Some d)
    obtain r w' where g:
      "get_db_cursor True (update_company_body company_id (update_fields_of d now)) w = (r, w')"
      by (cases "get_db_cursor True (update_company_body company_id (update_fields_of d now)) w")
    with cur [of "update_fields_of d now"]
    have "r = Inl (HTTPException 500 ''Database operation failed.'')" by simp
    with Some g show ?thesis by (simp add: update_company_def Let_def)
  qed
qed

lemma create_company_body_raises:
  assumes conn: "get_db_connection w = Inr rows"
    and ident: "map_of insert_data ''id'' = Some (PUUID new_id)"
  shows "\<exists>e rows' w'. create_company_body insert_data rows w = (Inl e, rows', w')
     \<and> companies w' = companies w"
proof (cases "list_ex (\<lambda>r. column r ''id'' = PUUID new_id) rows")
  case True
  with ident show ?thesis
    by (simp add: create_company_body_def insert_returning_id_def Let_def)
next
  case False
  let ?w1 = "cursor_execute (insert_query (keys insert_data)) (dict_values insert_data) w"
  from conn have "rows = companies w" by (rule get_db_connection_rows)
  with False have "\<not> list_ex (has_id new_id) (companies ?w1)"
    by (simp add: has_id_def list_ex_iff)
  then have g: "fst (get_company new_id ?w1) = Inl (HTTPException 500 ''Database operation failed.'')"
    by (rule get_company_absent)
  have c: "companies (snd (get_company new_id ?w1)) = companies w"
    by simp
  from False ident g c show ?thesis
    by (cases "get_company new_id ?w1")
       (simp add: create_company_body_def insert_returning_id_def Let_def)
qed

text \<open>
  Create reads the new row back through \<^verbatim>\<open>get_company\<close> inside its own
  \<^verbatim>\<open>with\<close> block, before the commit and on another connection: the row is
  not there yet, so the read raises and the insert is never committed.
\<close>

lemma create_company_raises:
  "fst (create_company request new_id now w)
     \<in> {Inl (HTTPException 400 ''Company name is required.''),
         Inl (HTTPException 500 ''Database operation failed.'')}
   \<and> companies (snd (create_company request new_id now w)) = companies w"
proof (cases "camel_to_snake_dict (Some request)")
  case None
  then show ?thesis by (simp add: camel_to_snake_dict_def)
next
  case (Some d)
  let ?ins = "set_if_missing ''updated_at'' (PDatetime now)
               (set_if_missing ''created_at'' (PDatetime now)
                 (set_if_missing ''id'' (PUUID new_id) (insert_data_of d new_id now)))"
  have ident: "map_of ?ins ''id'' = Some (PUUID new_id)"
    by (intro map_of_set_if_missing insert_data_of_id)
  have "fst (get_db_cursor True (create_company_body ?ins) w)
          = Inl (HTTPException 500 ''Database operation failed.'')
     \<and> companies (snd (get_db_cursor True (create_company_body ?ins) w)) = companies w"
    by (rule get_db_cursor_body_raises) (rule create_company_body_raises [OF _ ident])
  with Some show ?thesis
    by (cases "get_db_cursor True (create_company_body ?ins) w")
       (auto simp: create_company_def Let_def)
qed

section \<open>Facts about the casing converter\<close>

lemma setitem_fresh: "k \<notin> set (keys d) \<Longrightarrow> setitem k v d = d @ [(k, v)]"
  by (induction d) (auto simp: keys_def)

lemma fold_setitem_fresh:
  "distinct (map f (keys d)) \<Longrightarrow> set (map f (keys d)) \<inter> set (keys acc) = {}
     \<Longrightarrow> fold (\<lambda>(k, v) a. setitem (f k) (g v) a) d acc
         = acc @ map (\<lambda>(k, v). (f k, g v)) d"
proof (induction d arbitrary: acc)
  case Nil
  then show ?case by simp
next
  case (Cons p d)
  obtain k v where p: "p = (k, v)" by (cases p)
  from Cons.prems have fresh: "f k \<notin> set (keys acc)" and nin: "f k \<notin> set (map f (keys d))"
    and dist: "distinct (map f (keys d))" and disj: "set (map f (keys d)) \<inter> set (keys acc) = {}"
    by (auto simp: p keys_def)
  have step: "setitem (f k) (g v) acc = acc @ [(f k, g v)]"
    using fresh by (rule setitem_fresh)
  have "set (map f (keys d)) \<inter> set (keys (acc @ [(f k, g v)])) = {}"
    using nin disj by (auto simp: keys_def)
  from Cons.IH [OF dist this] show ?case
    by (simp add: p step)
qed

lemma allowed_columns_roundtrip:
  "list_all (\<lambda>k. snake_key (snake_to_camel k) = k) allowed_columns"
  by code_simp

lemma key_roundtrip: "k \<in> set allowed_columns \<Longrightarrow> snake_key (snake_to_camel k) = k"
  using allowed_columns_roundtrip by (simp add: list_all_iff)

lemma upper_is_capital_or_digit:
  "d \<in> set (ascii_lowercase @ digits) \<Longrightarrow> upper d \<in> set (ascii_uppercase @ digits)"
proof -
  have "list_all (\<lambda>d. upper d \<in> set (ascii_uppercase @ digits)) (ascii_lowercase @ digits)"
    by code_simp
  then show "d \<in> set (ascii_lowercase @ digits) \<Longrightarrow> upper d \<in> set (ascii_uppercase @ digits)"
    by (simp only: list_all_iff)
qed

lemma snake_to_camel_plain:
  "list_all (\<lambda>c. c \<notin> set (ascii_uppercase @ digits)) (snake_to_camel s)
     \<Longrightarrow> snake_to_camel s = s"
proof (induction s rule: snake_to_camel.induct)
  case (1 c d cs)
  show ?case
  proof (cases "c = CHR ''_'' \<and> d \<in> set (ascii_lowercase @ digits)")
    case True
    then have "upper d \<in> set (ascii_uppercase @ digits)"
      by (simp only: upper_is_capital_or_digit)
    moreover from True "1.prems" have "upper d \<notin> set (ascii_uppercase @ digits)"
      by (simp del: set_append)
    ultimately show ?thesis by blast
  next
    case False
    then have eq: "snake_to_camel (c # d # cs) = c # snake_to_camel (d # cs)"
      by (simp only: snake_to_camel.simps if_False)
    with "1.prems" have "list_all (\<lambda>c. c \<notin> set (ascii_uppercase @ digits)) (snake_to_camel (d # cs))"
      by (simp del: set_append snake_to_camel.simps)
    with "1.IH"(2) [OF False] have "snake_to_camel (d # cs) = d # cs" by blast
    with eq show ?thesis by (simp del: snake_to_camel.simps)
  qed
qed simp_all

lemma snake_to_camel_address: "snake_to_camel k = ''address'' \<Longrightarrow> k = ''address''"
proof -
  assume a: "snake_to_camel k = ''address''"
  have "list_all (\<lambda>c. c \<notin> set (ascii_uppercase @ digits)) ''address''"
    by code_simp
  with a have "list_all (\<lambda>c. c \<notin> set (ascii_uppercase @ digits)) (snake_to_camel k)"
    by (simp only:)
  then have "snake_to_camel k = k" by (rule snake_to_camel_plain)
  with a show ?thesis by (simp only:)
qed

lemma snake_to_camel_location: "snake_to_camel k = ''location'' \<Longrightarrow> k = ''location''"
proof -
  assume a: "snake_to_camel k = ''location''"
  have "list_all (\<lambda>c. c \<notin> set (ascii_uppercase @ digits)) ''location''"
    by code_simp
  with a have "list_all (\<lambda>c. c \<notin> set (ascii_uppercase @ digits)) (snake_to_camel k)"
    by (simp only:)
  then have "snake_to_camel k = k" by (rule snake_to_camel_plain)
  with a show ?thesis by (simp only:)
qed

lemma map_of_fold_setitem_other:
  "K \<notin> f ` set (keys d)
     \<Longrightarrow> map_of (fold (\<lambda>(k, v) a. setitem (f k) (g v) a) d acc) K = map_of acc K"
proof (induction d arbitrary: acc)
  case Nil
  then show ?case by simp
next
  case (Cons p d)
  obtain k v where p: "p = (k, v)" by (cases p)
  from Cons.prems have "f k \<noteq> K" and "K \<notin> f ` set (keys d)"
    by (auto simp: p keys_def)
  with Cons.IH [of "setitem (f k) (g v) acc"] show ?case
    by (simp add: p map_of_setitem)
qed

lemma map_of_fold_setitem_only:
  assumes "distinct (keys d)" and "map_of d K0 = Some v"
    and "\<And>k. k \<in> set (keys d) \<Longrightarrow> f k = K \<Longrightarrow> k = K0"
    and "f K0 = K"
  shows "map_of (fold (\<lambda>(k, v) a. setitem (f k) (g v) a) d acc) K = Some (g v)"
  using assms(1-3)
proof (induction d arbitrary: acc)
  case Nil
  then show ?case by simp
next
  case (Cons p d)
  obtain k x where p: "p = (k, x)" by (cases p)
  show ?case
  proof (cases "k = K0")
    case True
    with Cons.prems(1,2) have x: "x = v" and nin: "K0 \<notin> set (keys d)"
      by (simp_all add: p keys_def)
    have "K \<notin> f ` set (keys d)"
    proof
      assume "K \<in> f ` set (keys d)"
      then obtain k' where k': "k' \<in> set (keys d)" "f k' = K" by blast
      then have "k' \<in> set (keys (p # d))" by (simp add: keys_def)
      with Cons.prems(3) k'(2) have "k' = K0" by blast
      with k'(1) nin show False by simp
    qed
    then have "map_of (fold (\<lambda>(k, v) a. setitem (f k) (g v) a) d (setitem (f k) (g x) acc)) K
                 = map_of (setitem (f k) (g x) acc) K"
      by (rule map_of_fold_setitem_other)
    with True x assms(4) show ?thesis
      by (simp add: p map_of_setitem)
  next
    case False
    with Cons.prems(1,2) have 1: "distinct (keys d)" and 2: "map_of d K0 = Some v"
      by (simp_all add: p keys_def)
    have 3: "\<And>k. k \<in> set (keys d) \<Longrightarrow> f k = K \<Longrightarrow> k = K0"
    proof -
      fix k' assume "k' \<in> set (keys d)" and fk: "f k' = K"
      then have "k' \<in> set (keys (p # d))" by (simp add: keys_def)
      with Cons.prems(3) fk show "k' = K0" by blast
    qed
    from Cons.IH [OF 1 2 3, of "setitem (f k) (g x) acc"] show ?thesis
      by (simp add: p)
  qed
qed

section \<open>Facts about the statements a handler executes\<close>

lemma executed_cursor_execute [simp]:
  "executed (cursor_execute q vs w) = executed w @ [(q, vs)]"
  by (simp add: cursor_execute_def)

lemma get_db_cursor_executed:
  assumes "\<And>rows r rows' w'. body rows w = (r, rows', w')
             \<Longrightarrow> \<exists>l. executed w' = executed w @ l \<and> set l \<subseteq> S"
  shows "\<exists>l. executed (snd (get_db_cursor commit body w)) = executed w @ l \<and> set l \<subseteq> S"
proof (cases "get_db_connection w")
  case (Inl e)
  then show ?thesis by (simp add: get_db_cursor_def)
next
  case (Inr rows)
  obtain r rows' w' where b: "body rows w = (r, rows', w')"
    by (cases "body rows w")
  from assms [OF b] obtain l where "executed w' = executed w @ l" "set l \<subseteq> S" by blast
  with Inr b show ?thesis
    by (cases r) (simp_all add: get_db_cursor_def)
qed

lemma get_company_executed:
  "\<exists>l. executed (snd (get_company company_id w)) = executed w @ l
       \<and> set l \<subseteq> {(get_company_query, [PStr company_id])}"
proof -
  have "\<exists>l. executed (snd (get_db_cursor False (get_company_body company_id) w)) = executed w @ l
       \<and> set l \<subseteq> {(get_company_query, [PStr company_id])}"
  proof (rule get_db_cursor_executed)
    fix rows r rows' w'
    assume "get_company_body company_id rows w = (r, rows', w')"
    then have "executed w' = executed w @ [(get_company_query, [PStr company_id])]"
      by (auto simp: get_company_body_def Let_def split: option.splits sum.splits)
    then show "\<exists>l. executed w' = executed w @ l \<and> set l \<subseteq> {(get_company_query, [PStr company_id])}"
      by simp
  qed
  then show ?thesis
    by (cases "get_db_cursor False (get_company_body company_id) w")
       (auto simp: get_company_def split: sum.splits)
qed

lemma update_company_body_executed:
  assumes "update_company_body company_id uf rows w = (r, rows', w')"
  shows "\<exists>l. executed w' = executed w @ l
       \<and> set l \<subseteq> {(update_query (keys uf), dict_values uf @ [PStr company_id]),
                  (get_company_query, [PStr company_id])}"
proof (cases "list_ex (has_id company_id) rows")
  case False
  with assms have "executed w' = executed w @ [(update_query (keys uf), dict_values uf @ [PStr company_id])]"
    by (auto simp: update_company_body_def update_returning_id_def Let_def)
  then show ?thesis by simp
next
  case True
  let ?w1 = "cursor_execute (update_query (keys uf)) (dict_values uf @ [PStr company_id]) w"
  from get_company_executed [of company_id ?w1] obtain l
    where l: "executed (snd (get_company company_id ?w1)) = executed ?w1 @ l"
      "set l \<subseteq> {(get_company_query, [PStr company_id])}"
    by blast
  from True assms have "w' = snd (get_company company_id ?w1)"
    by (auto simp: update_company_body_def update_returning_id_def Let_def split: prod.splits)
  with l have "executed w' = executed w @ (update_query (keys uf), dict_values uf @ [PStr company_id]) # l"
    by simp
  with l(2) show ?thesis
    by (intro exI [of _ "(update_query (keys uf), dict_values uf @ [PStr company_id]) # l"]) auto
qed

lemma update_company_executed:
  assumes "camel_to_snake_dict (Some request) = Some d"
  shows "\<exists>l. executed (snd (update_company company_id request now w)) = executed w @ l
       \<and> set l \<subseteq> {(update_query (keys (update_fields_of d now)),
                   dict_values (update_fields_of d now) @ [PStr company_id]),
                  (get_company_query, [PStr company_id])}"
proof -
  let ?uf = "update_fields_of d now"
  let ?S = "{(update_query (keys ?uf), dict_values ?uf @ [PStr company_id]),
             (get_company_query, [PStr company_id])}"
  have c: "\<exists>l. executed (snd (get_db_cursor True (update_company_body company_id ?uf) w))
                = executed w @ l \<and> set l \<subseteq> ?S"
    by (rule get_db_cursor_executed) (rule update_company_body_executed)
  show ?thesis
  proof (cases "d = [] \<or> ?uf = [] \<or> list_all (\<lambda>k. k = ''updated_at'') (keys ?uf)")
    case True
    with assms have "snd (update_company company_id request now w) = w"
      by (auto simp: update_company_def Let_def)
    then show ?thesis by simp
  next
    case False
    with assms have "snd (update_company company_id request now w)
        = snd (get_db_cursor True (update_company_body company_id ?uf) w)"
      by (cases "get_db_cursor True (update_company_body company_id ?uf) w")
         (auto simp: update_company_def Let_def split: sum.splits)
    with c show ?thesis by simp
  qed
qed

section \<open>Facts about the allow-list filter\<close>

lemma keys_allow_list_filter: "set (keys (allow_list_filter allowed d)) \<subseteq> set allowed"
  by (auto simp: allow_list_filter_def keys_def)

lemma values_allow_list_filter: "PNone \<notin> set (dict_values (allow_list_filter allowed d))"
  by (auto simp: allow_list_filter_def dict_values_def)

lemma set_setitem: "set (setitem k v d) \<subseteq> insert (k, v) (set d)"
  by (induction d) (auto split: if_splits)

lemma keys_set_if_missing: "set (keys (set_if_missing k v d)) = insert k (set (keys d))"
  by (auto simp: set_if_missing_def keys_setitem)

lemma values_setitem: "set (dict_values (setitem k v d)) \<subseteq> insert v (set (dict_values d))"
  using set_setitem [of k v d] by (fastforce simp: dict_values_def)

lemma values_set_if_missing:
  "set (dict_values (set_if_missing k v d)) \<subseteq> insert v (set (dict_values d))"
  using values_setitem [of k v d] by (auto simp: set_if_missing_def)

lemma essential_columns_allowed:
  "''id'' \<in> set allowed_columns \<and> ''created_at'' \<in> set allowed_columns
   \<and> ''updated_at'' \<in> set allowed_columns"
  by code_simp

lemma update_columns_protected:
  "''id'' \<notin> set allowed_update_columns \<and> ''created_at'' \<notin> set allowed_update_columns
   \<and> ''updated_at'' \<in> set allowed_update_columns"
  by code_simp

lemma create_company_body_executed:
  assumes b: "create_company_body ins rows w = (r, rows', w')"
    and ident: "map_of ins ''id'' = Some (PUUID new_id)"
  shows "\<exists>l. executed w' = executed w @ l
       \<and> set l \<subseteq> {(insert_query (keys ins), dict_values ins),
                  (get_company_query, [PStr new_id])}"
proof (cases "list_ex (\<lambda>r. column r ''id'' = PUUID new_id) rows")
  case True
  with b ident have "executed w' = executed w @ [(insert_query (keys ins), dict_values ins)]"
    by (auto simp: create_company_body_def insert_returning_id_def Let_def)
  then show ?thesis by simp
next
  case False
  let ?w1 = "cursor_execute (insert_query (keys ins)) (dict_values ins) w"
  from get_company_executed [of new_id ?w1] obtain l
    where l: "executed (snd (get_company new_id ?w1)) = executed ?w1 @ l"
      "set l \<subseteq> {(get_company_query, [PStr new_id])}"
    by blast
  from False b ident have "w' = snd (get_company new_id ?w1)"
    by (auto simp: create_company_body_def insert_returning_id_def Let_def split: prod.splits)
  with l have "executed w' = executed w @ (insert_query (keys ins), dict_values ins) # l"
    by simp
  with l(2) show ?thesis
    by (intro exI [of _ "(insert_query (keys ins), dict_values ins) # l"]) auto
qed

lemma create_company_executed:
  assumes "camel_to_snake_dict (Some request) = Some d"
  shows "\<exists>l. executed (snd (create_company request new_id now w)) = executed w @ l
       \<and> set l \<subseteq>
           {(insert_query
               (keys (set_if_missing ''updated_at'' (PDatetime now)
                       (set_if_missing ''created_at'' (PDatetime now)
                         (set_if_missing ''id'' (PUUID new_id) (insert_data_of d new_id now))))),
             dict_values (set_if_missing ''updated_at'' (PDatetime now)
                           (set_if_missing ''created_at'' (PDatetime now)
                             (set_if_missing ''id'' (PUUID new_id)
                               (insert_data_of d new_id now))))),
            (get_company_query, [PStr new_id])}"
proof -
  let ?ins = "set_if_missing ''updated_at'' (PDatetime now)
               (set_if_missing ''created_at'' (PDatetime now)
                 (set_if_missing ''id'' (PUUID new_id) (insert_data_of d new_id now)))"
  let ?S = "{(insert_query (keys ?ins), dict_values ?ins), (get_company_query, [PStr new_id])}"
  have ident: "map_of ?ins ''id'' = Some (PUUID new_id)"
    by (intro map_of_set_if_missing insert_data_of_id)
  have c: "\<exists>l. executed (snd (get_db_cursor True (create_company_body ?ins) w))
                = executed w @ l \<and> set l \<subseteq> ?S"
    by (rule get_db_cursor_executed) (rule create_company_body_executed [OF _ ident])
  show ?thesis
  proof (cases "''name'' \<in> set (keys (insert_data_of d new_id now))")
    case False
    with assms have "snd (create_company request new_id now w) = w"
      by (simp add: create_company_def Let_def)
    then show ?thesis by simp
  next
    case True
    with assms have "snd (create_company request new_id now w)
        = snd (get_db_cursor True (create_company_body ?ins) w)"
      by (cases "get_db_cursor True (create_company_body ?ins) w")
         (auto simp: create_company_def Let_def split: sum.splits)
    with c show ?thesis by simp
  qed
qed

lemma camel_to_snake_dict_Some: "\<exists>d. camel_to_snake_dict (Some request) = Some d"
  by (simp add: camel_to_snake_dict_def)

lemma keys_insert_data: 
  "set (keys (set_if_missing ''updated_at'' (PDatetime now)
               (set_if_missing ''created_at'' (PDatetime now)
                 (set_if_missing ''id'' (PUUID new_id) (insert_data_of d new_id now)))))
     \<subseteq> set allowed_columns"
  using keys_allow_list_filter [of allowed_columns] essential_columns_allowed
  by (simp add: keys_set_if_missing insert_data_of_def)

section \<open>Facts about the rows an update writes\<close>

lemma map_of_fold_setitem_row:
  "map_of (fold (\<lambda>(k, v). setitem k v) uf r) = map_of r ++ map_of (rev uf)"
proof (induction uf arbitrary: r)
  case Nil
  then show ?case by simp
next
  case (Cons p uf)
  obtain k v where p: "p = (k, v)" by (cases p)
  have "map_of (fold (\<lambda>(k, v). setitem k v) (p # uf) r)
          = map_of (setitem k v r) ++ map_of (rev uf)"
    by (simp add: p Cons.IH)
  also have "\<dots> = map_of r ++ map_of (rev (p # uf))"
    by (simp add: p map_of_setitem map_add_def fun_eq_iff split: option.splits)
  finally show ?case .
qed

lemma column_update_other:
  assumes "c \<notin> set (keys uf)"
  shows "column (fold (\<lambda>(k, v). setitem k v) uf r) c = column r c"
proof -
  from assms have "map_of (rev uf) c = None"
    by (simp add: map_of_eq_None_iff keys_def)
  then show ?thesis
    by (simp add: column_def map_of_fold_setitem_row map_add_def)
qed

lemma column_update_nonnull:
  assumes "PNone \<notin> set (dict_values uf)" and "column r c \<noteq> PNone"
  shows "column (fold (\<lambda>(k, v). setitem k v) uf r) c \<noteq> PNone"
proof (cases "map_of (rev uf) c")
  case None
  with assms(2) show ?thesis
    by (simp add: column_def map_of_fold_setitem_row map_add_def)
next
  case (Some v)
  then have "(c, v) \<in> set uf"
    by (auto dest: map_of_SomeD)
  then have "v \<in> set (dict_values uf)"
    by (force simp: dict_values_def)
  with assms(1) have "v \<noteq> PNone" by blast
  with Some show ?thesis
    by (simp add: column_def map_of_fold_setitem_row map_add_def)
qed

lemma column_update_set:
  assumes "distinct (keys uf)" and "map_of uf c = Some v"
  shows "column (fold (\<lambda>(k, v). setitem k v) uf r) c = v"
proof -
  from assms(1) have "distinct (map fst (rev uf))"
    by (simp add: keys_def rev_map [symmetric])
  moreover from assms(2) have "(c, v) \<in> set (rev uf)"
    by (auto dest: map_of_SomeD)
  ultimately have "map_of (rev uf) c = Some v"
    by (rule map_of_is_SomeI)
  then show ?thesis
    by (simp add: column_def map_of_fold_setitem_row map_add_def)
qed

lemma distinct_fold_setitem:
  "distinct (keys acc) \<Longrightarrow> distinct (keys (fold (\<lambda>(k, v) a. setitem (f k) v a) xs acc))"
proof (induction xs arbitrary: acc)
  case Nil
  then show ?case by simp
next
  case (Cons p xs)
  obtain k v where p: "p = (k, v)" by (cases p)
  from Cons.prems have "distinct (keys (setitem (f k) v acc))"
    by (rule distinct_setitem)
  from Cons.IH [OF this] show ?case by (simp add: p)
qed

lemma distinct_camel_to_snake_dict:
  "camel_to_snake_dict (Some request) = Some d \<Longrightarrow> distinct (keys d)"
  using distinct_fold_setitem [of "[]" snake_key request]
  by (auto simp: camel_to_snake_dict_def keys_def)

lemma distinct_update_fields:
  assumes "distinct (keys d)"
  shows "distinct (keys (update_fields_of d now))"
proof -
  from assms have "distinct (map fst (setitem ''updated_at'' (PDatetime now) d))"
    using distinct_setitem [of d "''updated_at''" "PDatetime now"] by (simp add: keys_def)
  then show ?thesis
    by (simp add: update_fields_of_def allow_list_filter_def keys_def distinct_map_filter)
qed

lemma update_fields_updated_at:
  "map_of (update_fields_of d now) ''updated_at'' = Some (PDatetime now)"
  unfolding update_fields_of_def allow_list_filter_def
  using update_columns_protected
  by (intro map_of_filter_first) (simp_all add: map_of_setitem)

lemma update_fields_protected:
  "''id'' \<notin> set (keys (update_fields_of d now))
   \<and> ''created_at'' \<notin> set (keys (update_fields_of d now))"
  using keys_allow_list_filter [of allowed_update_columns] update_columns_protected
  by (auto simp: update_fields_of_def)

lemma get_company_snd_companies:
  "get_company cid w = (res, w2) \<Longrightarrow> companies w2 = companies w"
  using companies_get_company [of cid w] by simp

lemma update_cursor_companies:
  "(companies (snd (get_db_cursor True (update_company_body company_id uf) w)) = companies w
      \<and> (\<forall>r. fst (get_db_cursor True (update_company_body company_id uf) w) \<noteq> Inr r))
   \<or> (list_ex (has_id company_id) (companies w)
      \<and> companies (snd (get_db_cursor True (update_company_body company_id uf) w))
          = map (\<lambda>r. if has_id company_id r then fold (\<lambda>(k, v). setitem k v) uf r else r)
              (companies w))"
proof (cases "get_db_connection w")
  case (Inl e)
  then show ?thesis by (simp add: get_db_cursor_def)
next
  case (Inr rows)
  then have rows: "rows = companies w" by (rule get_db_connection_rows)
  let ?w1 = "cursor_execute (update_query (keys uf)) (dict_values uf @ [PStr company_id]) w"
  show ?thesis
  proof (cases "list_ex (has_id company_id) rows")
    case False
    with Inr show ?thesis
      by (simp add: get_db_cursor_def update_company_body_def update_returning_id_def Let_def)
  next
    case True
    obtain res w2 where g: "get_company company_id ?w1 = (res, w2)"
      by (cases "get_company company_id ?w1")
    then have c: "companies w2 = companies w"
      using get_company_snd_companies [OF g] by simp
    from True g have b: "update_company_body company_id uf rows w
        = (res, map (\<lambda>r. if has_id company_id r then fold (\<lambda>(k, v). setitem k v) uf r else r) rows, w2)"
      by (simp add: update_company_body_def update_returning_id_def Let_def)
    show ?thesis
    proof (cases res)
      case (Inl e)
      with Inr b c show ?thesis by (simp add: get_db_cursor_def)
    next
      case (Inr r)
      with \<open>get_db_connection w = Inr rows\<close> b True rows show ?thesis
        by (simp add: get_db_cursor_def)
    qed
  qed
qed

lemma update_company_companies:
  assumes "camel_to_snake_dict (Some request) = Some d"
  shows "(companies (snd (update_company company_id request now w)) = companies w
      \<and> (\<forall>r. fst (update_company company_id request now w) \<noteq> Inr r))
   \<or> (list_ex (has_id company_id) (companies w)
      \<and> companies (snd (update_company company_id request now w))
          = map (\<lambda>r. if has_id company_id r
                      then fold (\<lambda>(k, v). setitem k v) (update_fields_of d now) r else r)
              (companies w))"
proof (cases "d = [] \<or> update_fields_of d now = []
               \<or> list_all (\<lambda>k. k = ''updated_at'') (keys (update_fields_of d now))")
  case True
  with assms have "update_company company_id request now w
      = (Inl (HTTPException 400 ''No update data provided.''), w)
     \<or> update_company company_id request now w
      = (Inl (HTTPException 400 ''No valid fields provided for update.''), w)"
    by (auto simp: update_company_def Let_def)
  then show ?thesis by auto
next
  case False
  let ?c = "get_db_cursor True (update_company_body company_id (update_fields_of d now)) w"
  from False assms have "snd (update_company company_id request now w) = snd ?c
      \<and> (\<forall>r. fst (update_company company_id request now w) = Inr r \<longrightarrow> fst ?c = Inr r)"
    by (cases ?c) (auto simp: update_company_def Let_def split: sum.splits)
  with update_cursor_companies [of company_id "update_fields_of d now" w] show ?thesis
    by auto
qed

lemma update_fields_only_timestamp:
  assumes "filter (\<lambda>(k, v). k \<in> set allowed_update_columns \<and> k \<noteq> ''updated_at'' \<and> v \<noteq> PNone) d = []"
  shows "list_all (\<lambda>k. k = ''updated_at'') (keys (update_fields_of d now))"
proof -
  have "k = ''updated_at''" if "(k, v) \<in> set (update_fields_of d now)" for k v
  proof -
    from that have f: "k \<in> set allowed_update_columns" "v \<noteq> PNone"
      and "(k, v) \<in> set (setitem ''updated_at'' (PDatetime now) d)"
      by (auto simp: update_fields_of_def allow_list_filter_def)
    with set_setitem [of "''updated_at''" "PDatetime now" d]
    have "(k, v) = (''updated_at'', PDatetime now) \<or> (k, v) \<in> set d" by blast
    then show ?thesis
    proof
      assume "(k, v) = (''updated_at'', PDatetime now)"
      then show ?thesis by simp
    next
      assume "(k, v) \<in> set d"
      with assms f show ?thesis
        by (auto simp: filter_empty_conv)
    qed
  qed
  then show ?thesis
    by (auto simp: list_all_iff keys_def)
qed

lemma has_id_written:
  "''id'' \<notin> set (keys uf)
     \<Longrightarrow> has_id company_id (fold (\<lambda>(k, v). setitem k v) uf r) = has_id company_id r"
  by (simp add: has_id_def column_update_other)

lemma create_company_body_first_statement:
  assumes "create_company_body ins rows w = (r, rows', w')"
  shows "\<exists>l. executed w' = executed w @ (insert_query (keys ins), dict_values ins) # l"
proof -
  let ?w1 = "cursor_execute (insert_query (keys ins)) (dict_values ins) w"
  have g: "\<exists>l. executed (snd (get_company cid ?w1))
                = executed w @ (insert_query (keys ins), dict_values ins) # l" for cid
    using get_company_executed [of cid ?w1] by auto
  have "w' = ?w1 \<or> (\<exists>cid. w' = snd (get_company cid ?w1))"
    using assms
    by (auto simp: create_company_body_def Let_def
        split: sum.splits option.splits prod.splits if_splits)
       (metis snd_conv)
  then show ?thesis
  proof
    assume "w' = ?w1"
    then show ?thesis by simp
  next
    assume "\<exists>cid. w' = snd (get_company cid ?w1)"
    with g show ?thesis by auto
  qed
qed

lemma get_db_cursor_executed_body:
  assumes "get_db_connection w = Inr rows" and "body rows w = (r, rows', w')"
  shows "executed (snd (get_db_cursor commit body w)) = executed w'"
  using assms by (cases r) (simp_all add: get_db_cursor_def)

lemma required_keys:
  "snake_key ''name'' = ''name'' \<and> snake_key ''industry'' = ''industry''
   \<and> snake_key ''location'' = ''address''"
  by code_simp

lemma required_columns_allowed:
  "''name'' \<in> set allowed_columns \<and> ''industry'' \<in> set allowed_columns
   \<and> ''address'' \<in> set allowed_columns"
  by code_simp

text \<open>The two conversions, one after the other, on the columns of the table.\<close>

lemma roundtrip_on_allowed_columns:
  assumes dist: "distinct (keys m)" and sub: "set (keys m) \<subseteq> set allowed_columns"
  shows "camel_to_snake_dict (row_to_camel_dict (Some m))
           = Some (map (\<lambda>(k, v). (k, externalize_value v)) m)"
proof -
  have inj: "inj_on snake_to_camel (set (keys m))"
    by (rule inj_on_inverseI [where g = snake_key]) (use sub key_roundtrip in blast)
  have d1: "distinct (map snake_to_camel (keys m))"
    using dist inj by (simp add: distinct_map)
  have ext: "fold (\<lambda>(k, v) a. setitem (snake_to_camel k) (externalize_value v) a) m []
               = map (\<lambda>(k, v). (snake_to_camel k, externalize_value v)) m"
    using fold_setitem_fresh [of snake_to_camel m "[]" externalize_value] d1
    by (simp add: keys_def)
  let ?e = "map (\<lambda>(k, v). (snake_to_camel k, externalize_value v)) m"
  have keys_e: "map snake_key (keys ?e) = keys m"
    using sub key_roundtrip by (auto simp: keys_def intro!: map_idI)
  have d2: "distinct (map snake_key (keys ?e))"
    using dist by (simp add: keys_e)
  have int: "fold (\<lambda>(k, v) a. setitem (snake_key k) (id v) a) ?e []
               = map (\<lambda>(k, v). (snake_key k, id v)) ?e"
    using fold_setitem_fresh [of snake_key ?e "[]" id] d2
    by (simp add: keys_def)
  have "map (\<lambda>(k, v). (snake_key k, id v)) ?e = map (\<lambda>(k, v). (k, externalize_value v)) m"
    using sub key_roundtrip by (auto simp: keys_def)
  with ext int show ?thesis
    by (simp add: camel_to_snake_dict_def row_to_camel_dict_def)
qed

section \<open>The claims\<close>

text \<open>
  C1. The claim: a get, update or delete whose identifier is not in the table answers
  404. The handlers raise \<^verbatim>\<open>HTTPException(404)\<close> inside the
  \<^verbatim>\<open>with get_db_cursor()\<close> block, and the cursor manager catches every
  exception of the block and raises a 500 in its place. For every world and every
  identifier the table does not hold, get and delete answer 500, and update answers 400
  (nothing to update) or 500, never 404.
\<close>

theorem missing_id_answers_500:
  assumes "\<not> list_ex (has_id company_id) (companies w)"
  shows "http_status 200 (fst (get_company company_id w)) = 500
     \<and> http_status 204 (fst (delete_company company_id w)) = 500
     \<and> http_status 200 (fst (update_company company_id request now w)) \<in> {400, 500}"
  using get_company_absent [OF assms] delete_company_always_500 [of company_id w]
    update_company_absent [OF assms, of request now]
  by auto

theorem missing_id_answers_500_witness:
  "\<not> list_ex (has_id id_other) (companies acme_store)
   \<and> http_status 200 (fst (get_company id_other acme_store)) = 500
   \<and> http_status 204 (fst (delete_company id_other acme_store)) = 500
   \<and> http_status 200 (fst (update_company id_other [(''name'', PStr ''Zeta'')] t1 acme_store))
       = 500"
proof -
  have h: "\<not> list_ex (has_id id_other) (companies acme_store)"
    by code_simp
  have u: "http_status 200
             (fst (update_company id_other [(''name'', PStr ''Zeta'')] t1 acme_store)) = 500"
    by code_simp
  from h u missing_id_answers_500 [OF h, of "[(''name'', PStr ''Zeta'')]" t1]
  show ?thesis by simp
qed

text \<open>
  C2. The claim: a delete whose identifier is in the table removes the row, commits and
  answers 204 with an empty body. The code does not: after the DELETE statement the
  handler evaluates \<^verbatim>\<open>Response(status_code=204)\<close>, a name the module never
  imports, so the body raises, the cursor manager answers 500 and skips the commit. For
  every world and every identifier the table holds, the answer is 500 and the committed
  rows are what they were, the row included.
\<close>

theorem delete_existing_row_survives:
  assumes "list_ex (has_id company_id) (companies w)"
  shows "http_status 204 (fst (delete_company company_id w)) = 500
     \<and> companies (snd (delete_company company_id w)) = companies w
     \<and> list_ex (has_id company_id) (companies (snd (delete_company company_id w)))"
  using assms delete_company_always_500 [of company_id w] by simp

theorem delete_existing_row_survives_witness:
  "list_ex (has_id id_acme) (companies acme_store)
   \<and> http_status 204 (fst (delete_company id_acme acme_store)) = 500
   \<and> companies (snd (delete_company id_acme acme_store)) = [acme_row]"
proof -
  have h: "list_ex (has_id id_acme) (companies acme_store)"
    by code_simp
  have c: "companies acme_store = [acme_row]"
    by (simp add: acme_store_def)
  from h c delete_existing_row_survives [OF h] show ?thesis
    by simp
qed

text \<open>
  C3. The claim: the response of a successful create is what Get returns for the new
  identifier, that is, what the store holds after the create. The handler does call
  \<^verbatim>\<open>get_company(inserted_id)\<close>, but inside the
  \<^verbatim>\<open>with get_db_cursor(commit=True)\<close> block: the insert is not committed yet
  and \<^verbatim>\<open>get_company\<close> reads through a connection of its own. So no create
  succeeds: for every request, identifier, clock reading and world the answer is 400
  (no name) or 500, and the committed rows are what they were.
\<close>

theorem create_company_never_succeeds:
  "http_status 201 (fst (create_company request new_id now w)) \<in> {400, 500}
   \<and> (\<forall>r. fst (create_company request new_id now w) \<noteq> Inr r)
   \<and> companies (snd (create_company request new_id now w)) = companies w"
  using create_company_raises [of request new_id now w] by auto

text \<open>The same on a well-formed request and a store that holds another company.\<close>

lemma create_company_example:
  "create_company
     [(''name'', PStr ''Bolt''), (''industry'', PStr ''Energy''), (''location'', PStr ''2 Side St'')]
     id_other t1 acme_store
   = (Inl (HTTPException 500 ''Database operation failed.''),
      acme_store\<lparr>executed :=
        [(''INSERT INTO companies (name, industry, address, id, created_at, updated_at) VALUES (%s, %s, %s, %s, %s, %s) RETURNING id;'',
          [PStr ''Bolt'', PStr ''Energy'', PStr ''2 Side St'', PUUID id_other, PDatetime t1,
           PDatetime t1]),
         (get_company_query, [PStr id_other])]\<rparr>)"
  by code_simp

text \<open>
  C4. The claim: a create whose body holds only \<^verbatim>\<open>name\<close> succeeds with 201.
  \<^verbatim>\<open>CreateCompanyRequest\<close> declares \<^verbatim>\<open>industry: str\<close> and
  \<^verbatim>\<open>location: str\<close> without a default, so such a body is refused when it is
  validated, before the handler runs: the answer is 422 and nothing is executed.
\<close>

theorem create_name_only_counterexample:
  "http_status 201 (fst (post_companies [(''name'', PStr ''Acme'')] id_other t1 acme_store)) = 422
   \<and> snd (post_companies [(''name'', PStr ''Acme'')] id_other t1 acme_store) = acme_store"
  by code_simp

text \<open>
  C4 as amended: for every body that holds \<^verbatim>\<open>name\<close>,
  \<^verbatim>\<open>industry\<close> and \<^verbatim>\<open>location\<close> as strings and none of the
  optional fields, on a store that can be reached, the first statement create executes is
  the INSERT of exactly the columns name, industry, address, id, created_at and
  updated_at, with the three values of the body, the generated identifier, and the one
  clock reading for both timestamps.
\<close>

theorem create_with_required_fields:
  assumes conn: "get_db_connection w = Inr rows"
    and body: "map_of body ''name'' = Some (PStr n)" "map_of body ''industry'' = Some (PStr i)"
      "map_of body ''location'' = Some (PStr a)" "map_of body ''logoUrl'' = None"
      "map_of body ''revenue'' = None" "map_of body ''employees'' = None"
  shows "\<exists>l. executed (snd (post_companies body new_id now w))
           = executed w
             @ (insert_query [''name'', ''industry'', ''address'', ''id'', ''created_at'',
                              ''updated_at''],
                [PStr n, PStr i, PStr a, PUUID new_id, PDatetime now, PDatetime now]) # l"
proof -
  let ?request = "[(''name'', PStr n), (''industry'', PStr i), (''location'', PStr a)]"
  let ?d = "[(''name'', PStr n), (''industry'', PStr i), (''address'', PStr a)]"
  let ?ins = "[(''name'', PStr n), (''industry'', PStr i), (''address'', PStr a),
               (''id'', PUUID new_id), (''created_at'', PDatetime now),
               (''updated_at'', PDatetime now)]"
  have v: "model_validate CreateCompanyRequest (Some body) = Inr ?request"
    using body by (simp add: model_validate_def CreateCompanyRequest_def)
  have d: "camel_to_snake_dict (Some ?request) = Some ?d"
    using required_keys by (simp add: camel_to_snake_dict_def)
  have ins: "insert_data_of ?d new_id now = ?ins"
    using required_columns_allowed essential_columns_allowed
    by (simp add: insert_data_of_def allow_list_filter_def)
  have ess: "set_if_missing ''updated_at'' (PDatetime now)
               (set_if_missing ''created_at'' (PDatetime now)
                 (set_if_missing ''id'' (PUUID new_id) ?ins)) = ?ins"
    by (simp add: set_if_missing_def keys_def)
  obtain r rows' w' where b: "create_company_body ?ins rows w = (r, rows', w')"
    by (cases "create_company_body ?ins rows w")
  from create_company_body_first_statement [OF b] obtain l
    where l: "executed w' = executed w @ (insert_query (keys ?ins), dict_values ?ins) # l"
    by blast
  have c: "executed (snd (get_db_cursor True (create_company_body ?ins) w)) = executed w'"
    using conn b by (rule get_db_cursor_executed_body)
  have "snd (create_company ?request new_id now w)
          = snd (get_db_cursor True (create_company_body ?ins) w)"
    by (cases "get_db_cursor True (create_company_body ?ins) w")
       (simp add: create_company_def d ins ess Let_def keys_def split: sum.splits)
  with v c l show ?thesis
    by (simp add: post_companies_def keys_def dict_values_def)
qed

theorem create_with_required_fields_witness:
  "get_db_connection acme_store = Inr [acme_row]
   \<and> map_of bolt_body ''name'' = Some (PStr ''Bolt'')
   \<and> map_of bolt_body ''logoUrl'' = None
   \<and> (\<exists>l. executed (snd (post_companies bolt_body id_other t1 acme_store))
             = executed acme_store
               @ (insert_query [''name'', ''industry'', ''address'', ''id'', ''created_at'',
                                ''updated_at''],
                  [PStr ''Bolt'', PStr ''Energy'', PStr ''2 Side St'', PUUID id_other,
                   PDatetime t1, PDatetime t1]) # l)"
proof -
  have conn: "get_db_connection acme_store = Inr [acme_row]"
    by code_simp
  have b: "map_of bolt_body ''name'' = Some (PStr ''Bolt'')"
    "map_of bolt_body ''industry'' = Some (PStr ''Energy'')"
    "map_of bolt_body ''location'' = Some (PStr ''2 Side St'')"
    "map_of bolt_body ''logoUrl'' = None"
    "map_of bolt_body ''revenue'' = None"
    "map_of bolt_body ''employees'' = None"
    by (simp_all add: bolt_body_def)
  from create_with_required_fields [OF conn b, of id_other t1] conn b(1) b(4)
  show ?thesis by (intro conjI)
qed

text \<open>
  C5. The claim: \<^verbatim>\<open>row_to_camel_dict\<close> turns the key
  \<^verbatim>\<open>address\<close> into \<^verbatim>\<open>location\<close>. It does not: the function
  only applies \<^verbatim>\<open>snake_to_camel\<close>, which leaves a key without underscore as
  it is. The rename is the work of the response models, which declare
  \<^verbatim>\<open>location\<close> with the alias \<^verbatim>\<open>address\<close>.
\<close>

theorem externalize_address_counterexample:
  "row_to_camel_dict (Some [(''address'', PStr ''1 Main St'')])
     = Some [(''address'', PStr ''1 Main St'')]"
  by code_simp

text \<open>
  C5 as amended: for every row with the key \<^verbatim>\<open>address\<close>, the result of
  \<^verbatim>\<open>row_to_camel_dict\<close> still binds \<^verbatim>\<open>address\<close>, to the
  converted value, and it has a key \<^verbatim>\<open>location\<close> exactly when the row has
  one.
\<close>

theorem externalize_keeps_address:
  assumes "distinct (keys m)" and "map_of m ''address'' = Some v"
  shows "\<exists>d. row_to_camel_dict (Some m) = Some d
           \<and> map_of d ''address'' = Some (externalize_value v)
           \<and> (''location'' \<in> set (keys d) \<longleftrightarrow> ''location'' \<in> set (keys m))"
proof -
  let ?d = "fold (\<lambda>(k, v) a. setitem (snake_to_camel k) (externalize_value v) a) m []"
  have r: "row_to_camel_dict (Some m) = Some ?d"
    by (simp add: row_to_camel_dict_def)
  have fix_address: "snake_to_camel ''address'' = ''address''"
    by code_simp
  have fix_location: "snake_to_camel ''location'' = ''location''"
    by code_simp
  have a: "map_of ?d ''address'' = Some (externalize_value v)"
    using assms snake_to_camel_address fix_address
    by (rule map_of_fold_setitem_only
          [where f = snake_to_camel and g = externalize_value and d = m and acc = "[]"])
  have l: "''location'' \<in> set (keys ?d) \<longleftrightarrow> ''location'' \<in> set (keys m)"
  proof (cases "''location'' \<in> set (keys m)")
    case True
    then have "map_of m ''location'' \<noteq> None"
      by (simp only: map_of_eq_None_iff keys_def set_map not_not)
    then obtain x where x: "map_of m ''location'' = Some x"
      by blast
    have "map_of ?d ''location'' = Some (externalize_value x)"
      using assms(1) x snake_to_camel_location fix_location
      by (rule map_of_fold_setitem_only
            [where f = snake_to_camel and g = externalize_value and d = m and acc = "[]"])
    then have "map_of ?d ''location'' \<noteq> None" by (simp only: option.distinct not_False_eq_True)
    then have "''location'' \<in> set (keys ?d)"
      by (simp only: map_of_eq_None_iff keys_def set_map not_not)
    with True show ?thesis by blast
  next
    case False
    have "''location'' \<notin> snake_to_camel ` set (keys m)"
    proof
      assume "''location'' \<in> snake_to_camel ` set (keys m)"
      then obtain k where k: "k \<in> set (keys m)" "snake_to_camel k = ''location''"
        by (rule imageE) simp
      from k(2) have "k = ''location''" by (rule snake_to_camel_location)
      with k(1) False show False by (simp only:)
    qed
    then have "map_of ?d ''location'' = map_of [] ''location''"
      by (rule map_of_fold_setitem_other
            [where f = snake_to_camel and g = externalize_value and d = m and acc = "[]"])
    then have "map_of ?d ''location'' = None" by (simp only: map_of.simps)
    then have "''location'' \<notin> set (keys ?d)"
      by (simp add: map_of_eq_None_iff keys_def)
    with False show ?thesis by blast
  qed
  show ?thesis
  proof (intro exI conjI)
    show "row_to_camel_dict (Some m) = Some ?d" by (rule r)
    show "map_of ?d ''address'' = Some (externalize_value v)" by (rule a)
    show "''location'' \<in> set (keys ?d) \<longleftrightarrow> ''location'' \<in> set (keys m)" by (rule l)
  qed
qed

theorem externalize_keeps_address_witness:
  "distinct (keys acme_row) \<and> map_of acme_row ''address'' = Some (PStr ''1 Main St'')
   \<and> (\<exists>d. row_to_camel_dict (Some acme_row) = Some d
          \<and> map_of d ''address'' = Some (PStr ''1 Main St'')
          \<and> ''location'' \<notin> set (keys d))"
proof -
  have h1: "distinct (keys acme_row)"
    by code_simp
  have h2: "map_of acme_row ''address'' = Some (PStr ''1 Main St'')"
    by code_simp
  have n: "''location'' \<notin> set (keys acme_row)"
    by code_simp
  from externalize_keeps_address [OF h1 h2] n h1 h2 show ?thesis
    by simp
qed

text \<open>The response model reads \<^verbatim>\<open>address\<close> into its field \<^verbatim>\<open>location\<close>.\<close>

lemma get_company_example:
  "fst (get_company id_acme acme_store)
     = Inr [(''id'', PUUID id_acme), (''name'', PStr ''Acme''), (''industry'', PStr ''Tools''),
            (''location'', PStr ''1 Main St''), (''logoUrl'', PNone), (''revenue'', PNone),
            (''employees'', PNone), (''createdAt'', PDatetime t0), (''updatedAt'', PDatetime t0)]"
  by code_simp

text \<open>
  C6. On a dictionary whose keys are columns of the table,
  \<^verbatim>\<open>camel_to_snake_dict\<close> after \<^verbatim>\<open>row_to_camel_dict\<close> gives the
  keys back, in order, with each value converted as \<^verbatim>\<open>row_to_camel_dict\<close>
  converts it; where no value is a UUID or a date the result is the dictionary itself.
\<close>

theorem internalize_externalize_roundtrip:
  assumes "distinct (keys m)" and "set (keys m) \<subseteq> set allowed_columns"
  shows "camel_to_snake_dict (row_to_camel_dict (Some m))
           = Some (map (\<lambda>(k, v). (k, externalize_value v)) m)
     \<and> (list_all (\<lambda>v. externalize_value v = v) (dict_values m)
          \<longrightarrow> camel_to_snake_dict (row_to_camel_dict (Some m)) = Some m)"
proof -
  have g: "camel_to_snake_dict (row_to_camel_dict (Some m))
             = Some (map (\<lambda>(k, v). (k, externalize_value v)) m)"
    using assms by (rule roundtrip_on_allowed_columns)
  have "map (\<lambda>(k, v). (k, externalize_value v)) m = m"
    if "list_all (\<lambda>v. externalize_value v = v) (dict_values m)"
    using that by (auto simp: list_all_iff dict_values_def intro!: map_idI)
  with g show ?thesis by simp
qed

theorem internalize_externalize_roundtrip_witness:
  "distinct (keys plain_row) \<and> set (keys plain_row) \<subseteq> set allowed_columns
   \<and> list_all (\<lambda>v. externalize_value v = v) (dict_values plain_row)
   \<and> camel_to_snake_dict (row_to_camel_dict (Some plain_row)) = Some plain_row"
proof -
  have h1: "distinct (keys plain_row)"
    by code_simp
  have h2: "set (keys plain_row) \<subseteq> set allowed_columns"
    by code_simp
  have h3: "list_all (\<lambda>v. externalize_value v = v) (dict_values plain_row)"
    by code_simp
  from internalize_externalize_roundtrip [OF h1 h2] h3
  have "camel_to_snake_dict (row_to_camel_dict (Some plain_row)) = Some plain_row"
    by (rule conjunct2 [THEN mp])
  with h1 h2 h3 show ?thesis
    by (intro conjI)
qed

text \<open>On a row with an identifier and timestamps the values come back as text.\<close>

lemma roundtrip_example:
  "camel_to_snake_dict (row_to_camel_dict (Some acme_row))
     = Some [(''id'', PStr id_acme), (''name'', PStr ''Acme''), (''industry'', PStr ''Tools''),
             (''address'', PStr ''1 Main St''), (''created_at'', PStr t0),
             (''updated_at'', PStr t0)]"
  by code_simp

text \<open>
  C7. Whatever the input mapping, the allow-list filter returns only keys of the
  allow-list, with values that are not null. So every statement create and update
  execute is the fixed SELECT of Get, or the INSERT (the UPDATE) built from a dictionary
  whose keys are all in \<^verbatim>\<open>allowed_columns\<close>
  (\<^verbatim>\<open>allowed_update_columns\<close>): no column name comes from the request.
\<close>

theorem allow_list_bounds_columns:
  "set (keys (allow_list_filter allowed d)) \<subseteq> set allowed
   \<and> PNone \<notin> set (dict_values (allow_list_filter allowed d))
   \<and> (\<exists>insert_data l.
         set (keys insert_data) \<subseteq> set allowed_columns
       \<and> executed (snd (create_company request new_id now w)) = executed w @ l
       \<and> set l \<subseteq> {(insert_query (keys insert_data), dict_values insert_data),
                  (get_company_query, [PStr new_id])})
   \<and> (\<exists>update_fields l.
         set (keys update_fields) \<subseteq> set allowed_update_columns
       \<and> executed (snd (update_company company_id request now w)) = executed w @ l
       \<and> set l \<subseteq> {(update_query (keys update_fields),
                    dict_values update_fields @ [PStr company_id]),
                  (get_company_query, [PStr company_id])})"
proof -
  obtain d' where d': "camel_to_snake_dict (Some request) = Some d'"
    using camel_to_snake_dict_Some by blast
  have create: "\<exists>insert_data l.
         set (keys insert_data) \<subseteq> set allowed_columns
       \<and> executed (snd (create_company request new_id now w)) = executed w @ l
       \<and> set l \<subseteq> {(insert_query (keys insert_data), dict_values insert_data),
                  (get_company_query, [PStr new_id])}"
    using create_company_executed [OF d', of new_id now w] keys_insert_data [of now new_id d']
    by blast
  have "set (keys (update_fields_of d' now)) \<subseteq> set allowed_update_columns"
    by (simp add: update_fields_of_def keys_allow_list_filter)
  then have update: "\<exists>update_fields l.
         set (keys update_fields) \<subseteq> set allowed_update_columns
       \<and> executed (snd (update_company company_id request now w)) = executed w @ l
       \<and> set l \<subseteq> {(update_query (keys update_fields),
                    dict_values update_fields @ [PStr company_id]),
                  (get_company_query, [PStr company_id])}"
    using update_company_executed [OF d', of company_id now w]
    by blast
  from create update show ?thesis
    by (simp add: keys_allow_list_filter values_allow_list_filter)
qed

text \<open>A request with a key that is no column: the key does not reach the statement.\<close>

lemma create_company_adversarial_example:
  "executed (snd (create_company
      [(''name'', PStr ''Acme''), (''name) VALUES (1); DROP TABLE companies; --'', PStr ''x'')]
      id_other t1 acme_store))
   = [(''INSERT INTO companies (name, id, created_at, updated_at) VALUES (%s, %s, %s, %s) RETURNING id;'',
       [PStr ''Acme'', PUUID id_other, PDatetime t1, PDatetime t1]),
      (get_company_query, [PStr id_other])]"
  by code_simp

text \<open>
  C8. An update whose request, once converted to column names, holds no allow-listed
  column other than \<^verbatim>\<open>updated_at\<close> with a value that is not null (the empty
  request included) answers 400 and leaves the world as it was: no connection is opened
  and no statement is executed.
\<close>

theorem update_without_substance_is_400:
  assumes "camel_to_snake_dict (Some request) = Some d"
    and "filter (\<lambda>(k, v). k \<in> set allowed_update_columns \<and> k \<noteq> ''updated_at'' \<and> v \<noteq> PNone) d = []"
  shows "http_status 200 (fst (update_company company_id request now w)) = 400
     \<and> snd (update_company company_id request now w) = w"
proof -
  from assms(2) have "list_all (\<lambda>k. k = ''updated_at'') (keys (update_fields_of d now))"
    by (rule update_fields_only_timestamp)
  with assms(1) show ?thesis
    by (simp add: update_company_def Let_def)
qed

theorem update_without_substance_is_400_witness:
  "camel_to_snake_dict (Some [(''logoUrl'', PNone), (''revenue'', PNone)])
     = Some [(''logo_url'', PNone), (''revenue'', PNone)]
   \<and> filter (\<lambda>(k, v). k \<in> set allowed_update_columns \<and> k \<noteq> ''updated_at'' \<and> v \<noteq> PNone)
       [(''logo_url'', PNone), (''revenue'', PNone)] = []
   \<and> http_status 200
       (fst (update_company id_acme [(''logoUrl'', PNone), (''revenue'', PNone)] t1 acme_store)) = 400
   \<and> snd (update_company id_acme [(''logoUrl'', PNone), (''revenue'', PNone)] t1 acme_store)
       = acme_store"
proof -
  have h1: "camel_to_snake_dict (Some [(''logoUrl'', PNone), (''revenue'', PNone)])
     = Some [(''logo_url'', PNone), (''revenue'', PNone)]"
    by code_simp
  have h2: "filter (\<lambda>(k, v). k \<in> set allowed_update_columns \<and> k \<noteq> ''updated_at'' \<and> v \<noteq> PNone)
       [(''logo_url'', PNone), (''revenue'', PNone)] = []"
    by simp
  from update_without_substance_is_400 [OF h1 h2, of id_acme t1 acme_store] h1 h2
  show ?thesis by (intro conjI) simp_all
qed

text \<open>The empty body.\<close>

lemma empty_body_example:
  "put_company id_acme [] t1 acme_store
     = (Inl (HTTPException 400 ''No update data provided.''), acme_store)"
  by code_simp

text \<open>
  C9. For every update: the dictionary the UPDATE statement is built from has neither
  the key \<^verbatim>\<open>id\<close> nor \<^verbatim>\<open>created_at\<close> and binds
  \<^verbatim>\<open>updated_at\<close> to the clock reading; the only statements executed are this
  UPDATE and the SELECT of Get; the identifier and \<^verbatim>\<open>created_at\<close> of every
  committed row are what they were; and when the update succeeds, the row with the
  identifier is there and its \<^verbatim>\<open>updated_at\<close> is the clock reading.
\<close>

theorem update_keeps_id_and_created_at:
  "(\<exists>update_fields l.
        ''id'' \<notin> set (keys update_fields) \<and> ''created_at'' \<notin> set (keys update_fields)
      \<and> map_of update_fields ''updated_at'' = Some (PDatetime now)
      \<and> executed (snd (update_company company_id request now w)) = executed w @ l
      \<and> set l \<subseteq> {(update_query (keys update_fields),
                   dict_values update_fields @ [PStr company_id]),
                 (get_company_query, [PStr company_id])})
   \<and> map (\<lambda>r. (column r ''id'', column r ''created_at''))
         (companies (snd (update_company company_id request now w)))
       = map (\<lambda>r. (column r ''id'', column r ''created_at'')) (companies w)
   \<and> (\<forall>res. fst (update_company company_id request now w) = Inr res
         \<longrightarrow> filter (has_id company_id)
               (companies (snd (update_company company_id request now w))) \<noteq> []
           \<and> list_all (\<lambda>r. column r ''updated_at'' = PDatetime now)
               (filter (has_id company_id)
                 (companies (snd (update_company company_id request now w)))))"
proof -
  obtain d where d: "camel_to_snake_dict (Some request) = Some d"
    using camel_to_snake_dict_Some by blast
  let ?uf = "update_fields_of d now"
  let ?U = "update_company company_id request now w"
  let ?upd = "\<lambda>r. if has_id company_id r then fold (\<lambda>(k, v). setitem k v) ?uf r else r"
  have prot: "''id'' \<notin> set (keys ?uf)" "''created_at'' \<notin> set (keys ?uf)"
    using update_fields_protected [of d now] by simp_all
  have stamp: "map_of ?uf ''updated_at'' = Some (PDatetime now)"
    by (rule update_fields_updated_at)
  have dist: "distinct (keys ?uf)"
    using d by (intro distinct_update_fields distinct_camel_to_snake_dict)
  from update_company_executed [OF d, of company_id now w] obtain l
    where l: "executed (snd ?U) = executed w @ l"
      "set l \<subseteq> {(update_query (keys ?uf), dict_values ?uf @ [PStr company_id]),
                 (get_company_query, [PStr company_id])}"
    by blast
  have stmt: "\<exists>update_fields l.
        ''id'' \<notin> set (keys update_fields) \<and> ''created_at'' \<notin> set (keys update_fields)
      \<and> map_of update_fields ''updated_at'' = Some (PDatetime now)
      \<and> executed (snd ?U) = executed w @ l
      \<and> set l \<subseteq> {(update_query (keys update_fields),
                   dict_values update_fields @ [PStr company_id]),
                 (get_company_query, [PStr company_id])}"
    using prot stamp l by blast
  have keep: "(column (?upd r) ''id'', column (?upd r) ''created_at'')
                = (column r ''id'', column r ''created_at'')" for r
    using prot by (simp add: column_update_other)
  have frame: "map (\<lambda>r. (column r ''id'', column r ''created_at'')) (companies (snd ?U))
       = map (\<lambda>r. (column r ''id'', column r ''created_at'')) (companies w)"
    using update_company_companies [OF d, of company_id now w]
  proof
    assume "companies (snd ?U) = companies w \<and> (\<forall>r. fst ?U \<noteq> Inr r)"
    then show ?thesis by simp
  next
    assume "list_ex (has_id company_id) (companies w)
      \<and> companies (snd ?U) = map ?upd (companies w)"
    then have "companies (snd ?U) = map ?upd (companies w)" by blast
    then show ?thesis
      by (simp only: map_map comp_def keep)
  qed
  have succ: "filter (has_id company_id) (companies (snd ?U)) \<noteq> []
           \<and> list_all (\<lambda>r. column r ''updated_at'' = PDatetime now)
               (filter (has_id company_id) (companies (snd ?U)))"
    if "fst ?U = Inr res" for res
  proof -
    from that update_company_companies [OF d, of company_id now w]
    have ex: "list_ex (has_id company_id) (companies w)"
      and c: "companies (snd ?U) = map ?upd (companies w)"
      by auto
    have same: "has_id company_id (?upd r) = has_id company_id r" for r
      using prot(1) by (simp add: has_id_written)
    have f: "filter (has_id company_id) (companies (snd ?U))
               = map ?upd (filter (has_id company_id) (companies w))"
      by (simp only: c filter_map comp_def same)
    from ex have ne: "filter (has_id company_id) (companies w) \<noteq> []"
      by (simp add: list_ex_iff filter_empty_conv)
    have "column (?upd r) ''updated_at'' = PDatetime now" if "has_id company_id r" for r
      using that dist stamp by (simp add: column_update_set)
    then have "list_all (\<lambda>r. column r ''updated_at'' = PDatetime now)
                 (map ?upd (filter (has_id company_id) (companies w)))"
      by (simp add: list_all_iff)
    with ne f show ?thesis by simp
  qed
  from stmt frame succ show ?thesis by blast
qed

theorem update_keeps_id_and_created_at_witness:
  "fst (update_company id_acme [(''location'', PStr ''2 Side St'')] t1 acme_store)
     = Inr [(''id'', PUUID id_acme), (''name'', PStr ''Acme''), (''industry'', PStr ''Tools''),
            (''location'', PStr ''1 Main St''), (''logoUrl'', PNone), (''revenue'', PNone),
            (''employees'', PNone), (''createdAt'', PDatetime t0), (''updatedAt'', PDatetime t0)]
   \<and> map (\<lambda>r. (column r ''id'', column r ''created_at''))
         (companies (snd (update_company id_acme [(''location'', PStr ''2 Side St'')] t1 acme_store)))
       = [(PUUID id_acme, PDatetime t0)]
   \<and> list_all (\<lambda>r. column r ''updated_at'' = PDatetime t1)
         (filter (has_id id_acme)
           (companies (snd (update_company id_acme [(''location'', PStr ''2 Side St'')] t1
                              acme_store))))"
proof -
  let ?U = "update_company id_acme [(''location'', PStr ''2 Side St'')] t1 acme_store"
  have s: "fst ?U
     = Inr [(''id'', PUUID id_acme), (''name'', PStr ''Acme''), (''industry'', PStr ''Tools''),
            (''location'', PStr ''1 Main St''), (''logoUrl'', PNone), (''revenue'', PNone),
            (''employees'', PNone), (''createdAt'', PDatetime t0), (''updatedAt'', PDatetime t0)]"
    by code_simp
  have b: "map (\<lambda>r. (column r ''id'', column r ''created_at'')) (companies acme_store)
             = [(PUUID id_acme, PDatetime t0)]"
    by code_simp
  note inst = update_keeps_id_and_created_at
    [where request = "[(''location'', PStr ''2 Side St'')]"
       and now = t1 and w = acme_store and company_id = id_acme]
  from inst have frame: "map (\<lambda>r. (column r ''id'', column r ''created_at'')) (companies (snd ?U))
       = map (\<lambda>r. (column r ''id'', column r ''created_at'')) (companies acme_store)"
    by (rule conjunct2 [THEN conjunct1])
  from inst s have succ: "list_all (\<lambda>r. column r ''updated_at'' = PDatetime t1)
         (filter (has_id id_acme) (companies (snd ?U)))"
    by blast
  from s frame b succ show ?thesis
    by (intro conjI) (simp_all only:)
qed

text \<open>
  C10. No statement of create or update carries a null among the values of its INSERT or
  SET columns: a field that is null or absent is left out. So an update clears nothing:
  the committed table keeps its rows in place, and every cell that held a value before an
  update holds a value after it.
\<close>

theorem null_fields_never_written:
  "(\<exists>insert_data l.
        PNone \<notin> set (dict_values insert_data)
      \<and> executed (snd (create_company request new_id now w)) = executed w @ l
      \<and> set l \<subseteq> {(insert_query (keys insert_data), dict_values insert_data),
                 (get_company_query, [PStr new_id])})
   \<and> (\<exists>update_fields l.
        PNone \<notin> set (dict_values update_fields)
      \<and> executed (snd (update_company company_id request now w)) = executed w @ l
      \<and> set l \<subseteq> {(update_query (keys update_fields),
                   dict_values update_fields @ [PStr company_id]),
                 (get_company_query, [PStr company_id])})
   \<and> length (companies (snd (update_company company_id request now w)))
       = length (companies w)
   \<and> (\<forall>i<length (companies w). \<forall>c.
         column (companies w ! i) c \<noteq> PNone
         \<longrightarrow> column (companies (snd (update_company company_id request now w)) ! i) c \<noteq> PNone)"
proof -
  obtain d where d: "camel_to_snake_dict (Some request) = Some d"
    using camel_to_snake_dict_Some by blast
  let ?uf = "update_fields_of d now"
  let ?U = "update_company company_id request now w"
  let ?upd = "\<lambda>r. if has_id company_id r then fold (\<lambda>(k, v). setitem k v) ?uf r else r"
  let ?ins = "set_if_missing ''updated_at'' (PDatetime now)
               (set_if_missing ''created_at'' (PDatetime now)
                 (set_if_missing ''id'' (PUUID new_id) (insert_data_of d new_id now)))"
  have "PNone \<notin> set (dict_values (insert_data_of d new_id now))"
    by (simp add: insert_data_of_def values_allow_list_filter)
  then have vi: "PNone \<notin> set (dict_values ?ins)"
    using values_set_if_missing [of "''id''" "PUUID new_id" "insert_data_of d new_id now"]
      values_set_if_missing [of "''created_at''" "PDatetime now"
        "set_if_missing ''id'' (PUUID new_id) (insert_data_of d new_id now)"]
      values_set_if_missing [of "''updated_at''" "PDatetime now"
        "set_if_missing ''created_at'' (PDatetime now)
           (set_if_missing ''id'' (PUUID new_id) (insert_data_of d new_id now))"]
    by blast
  have create: "\<exists>insert_data l.
        PNone \<notin> set (dict_values insert_data)
      \<and> executed (snd (create_company request new_id now w)) = executed w @ l
      \<and> set l \<subseteq> {(insert_query (keys insert_data), dict_values insert_data),
                 (get_company_query, [PStr new_id])}"
    using create_company_executed [OF d, of new_id now w] vi by blast
  have vu: "PNone \<notin> set (dict_values ?uf)"
    by (simp add: update_fields_of_def values_allow_list_filter)
  have update: "\<exists>update_fields l.
        PNone \<notin> set (dict_values update_fields)
      \<and> executed (snd ?U) = executed w @ l
      \<and> set l \<subseteq> {(update_query (keys update_fields),
                   dict_values update_fields @ [PStr company_id]),
                 (get_company_query, [PStr company_id])}"
    using update_company_executed [OF d, of company_id now w] vu by blast
  have keep: "column (if has_id cid r then fold (\<lambda>(k, v). setitem k v) ?uf r else r) c \<noteq> PNone"
    if "column r c \<noteq> PNone" for r c cid
    using that vu by (simp add: column_update_nonnull)
  have rows: "companies (snd ?U) = companies w \<or> companies (snd ?U) = map ?upd (companies w)"
    using update_company_companies [OF d, of company_id now w] by blast
  then have len: "length (companies (snd ?U)) = length (companies w)"
    by auto
  have cells: "column (companies (snd ?U) ! i) c \<noteq> PNone"
    if "i < length (companies w)" "column (companies w ! i) c \<noteq> PNone" for i c
    using rows
  proof
    assume "companies (snd ?U) = companies w"
    with that show ?thesis by simp
  next
    assume "companies (snd ?U) = map ?upd (companies w)"
    with that(1) have "companies (snd ?U) ! i = ?upd (companies w ! i)"
      by (simp only: nth_map)
    with keep [OF that(2), of company_id] show ?thesis by simp
  qed
  from create update len cells show ?thesis by blast
qed

theorem null_fields_never_written_witness:
  "companies (snd (update_company id_acme
       [(''location'', PNone), (''industry'', PStr ''Energy'')] t1 acme_store))
     = [[(''id'', PUUID id_acme), (''name'', PStr ''Acme''), (''industry'', PStr ''Energy''),
         (''address'', PStr ''1 Main St''), (''created_at'', PDatetime t0),
         (''updated_at'', PDatetime t1)]]
   \<and> column (companies acme_store ! 0) ''address'' = PStr ''1 Main St''
   \<and> column (companies (snd (update_company id_acme
        [(''location'', PNone), (''industry'', PStr ''Energy'')] t1 acme_store)) ! 0) ''address''
       \<noteq> PNone"
proof -
  let ?U = "update_company id_acme [(''location'', PNone), (''industry'', PStr ''Energy'')] t1 acme_store"
  have r: "companies (snd ?U)
     = [[(''id'', PUUID id_acme), (''name'', PStr ''Acme''), (''industry'', PStr ''Energy''),
         (''address'', PStr ''1 Main St''), (''created_at'', PDatetime t0),
         (''updated_at'', PDatetime t1)]]"
    by code_simp
  have a: "column (companies acme_store ! 0) ''address'' = PStr ''1 Main St''"
    by code_simp
  have n: "0 < length (companies acme_store)"
    by code_simp
  from a have a': "column (companies acme_store ! 0) ''address'' \<noteq> PNone"
    by (simp only: pyval.distinct not_False_eq_True)
  note inst = null_fields_never_written
    [where request = "[(''location'', PNone), (''industry'', PStr ''Energy'')]"
       and new_id = id_other and now = t1 and w = acme_store and company_id = id_acme]
  from inst n a' have "column (companies (snd ?U) ! 0) ''address'' \<noteq> PNone"
    by blast
  with r a show ?thesis
    by (intro conjI)
qed

end
